theory Spec2Isabelle
  imports Main "HOL-Library.AList"
begin

section \<open>Data model\<close>

text \<open>
  The types of \<^verbatim>\<open>src/src/index.ts\<close>, lines 11 to 29. Chat ids and message ids are
  JavaScript numbers; they are integers here. A \<^verbatim>\<open>Record<string, number | null>\<close> is an
  association list in creation order, its keys being the decimal renderings of chat ids
  (\<^verbatim>\<open>state.channels[channelId] = ...\<close> with a number as key), so a key is the integer
  itself and \<^verbatim>\<open>parseInt\<close> of a key is that integer. A JavaScript object holds a key at
  most once: a well-formed object has distinct keys.
\<close>

record ConfigChannelEntry =
  groupIds :: "int list"
  channelIds :: "int list"
  bot_cfg :: string

record Config =
  channels_cfg :: "(string \<times> ConfigChannelEntry) list"
  bots :: "string list"

record ChannelState =
  lastStreamId :: "string option"
  lastStreamTitle :: "string option"
  channels :: "(int \<times> int option) list"
  groups :: "(int \<times> int option) list"

type_synonym StatusDb = "(string \<times> ChannelState) list"

text \<open>
  The order in which JavaScript enumerates an object's own keys (\<^verbatim>\<open>Object.entries\<close>,
  \<^verbatim>\<open>for ... in\<close>): the keys that are array indices, ascending, then the other keys in
  creation order.
\<close>

definition isArrayIndex :: "int \<Rightarrow> bool" where
  "isArrayIndex k \<longleftrightarrow> 0 \<le> k \<and> k < 4294967295"

definition Object_entries :: "(int \<times> 'v) list \<Rightarrow> (int \<times> 'v) list" where
  "Object_entries obj =
     sort_key fst (filter (\<lambda>e. isArrayIndex (fst e)) obj) @
     filter (\<lambda>e. \<not> isArrayIndex (fst e)) obj"

definition forIn_keys :: "(int \<times> 'v) list \<Rightarrow> int list" where
  "forIn_keys obj = map fst (Object_entries obj)"

section \<open>The outside world\<close>

text \<open>
  Every awaited call that leaves the process is an event. The stream lookup (the two
  awaits on \<^verbatim>\<open>apiClient\<close>, lines 77 and 87) is summarised by its result.
\<close>

datatype event =
    SendMessage int string
  | EditMessageText int int string
  | PinChatMessage int int
  | UnpinChatMessage int int
  | Write

datatype error =
    UnknownBot string
  | ApiError
  | TypeError
  | TelegramError event
  | TaskTimeout

text \<open>
  A promise looked at some time after it was made is resolved, rejected or still pending.
\<close>

datatype outcome = Resolved | Rejected error | Pending

datatype logline = ConsoleError string | ConsoleWarn string | ConsoleThrown error

record HelixStream =
  id_stream :: string
  title :: string
  userName :: string

datatype status = LookupThrows | EmptyResult | NotOnline | Online HelixStream

text \<open>
  What the collaborators answer during one run: the stream status of each channel name,
  the reply of Telegram to each call (\<open>None\<close> and \<open>False\<close>: the call throws), the
  library function \<^verbatim>\<open>escape\<close> of html-escaper, the ten hexadecimal digits drawn with
  \<^verbatim>\<open>crypto.randomBytes(5)\<close>, and the time in milliseconds each await takes. The answers
  are those of one run: a call made twice in it is answered the same way. A run is looked
  at up to a deadline, or with no deadline, as long as it takes for every call to be
  answered; a call that never answers is, at any deadline, a call that takes longer than
  the deadline leaves.
\<close>

record Env =
  getStatus :: "string \<Rightarrow> status"
  sendMessage :: "int \<Rightarrow> string \<Rightarrow> int option"
  editMessageText :: "int \<Rightarrow> int \<Rightarrow> string \<Rightarrow> bool"
  pinChatMessage :: "int \<Rightarrow> int \<Rightarrow> bool"
  unpinChatMessage :: "int \<Rightarrow> int \<Rightarrow> bool"
  escape :: "string \<Rightarrow> string"
  randomHex :: string
  lookupMs :: "string \<Rightarrow> nat"
  latencyMs :: "event \<Rightarrow> nat"

text \<open>
  The observable effects of a run: the awaited calls in order, the lines written with
  \<^verbatim>\<open>console.error\<close> and \<^verbatim>\<open>console.warn\<close>, the elapsed time. A \<open>World\<close> adds the
  in-memory \<^verbatim>\<open>statusDb.data\<close> and the content of \<^verbatim>\<open>state.json\<close>; a \<open>Cycle\<close> is the
  view of one call of \<^verbatim>\<open>update\<close>: the object \<^verbatim>\<open>state\<close> it mutates in place and the
  value of that object at its last \<^verbatim>\<open>statusDb.write()\<close>.
\<close>

record Run =
  trace :: "event list"
  console :: "logline list"
  clock :: nat

record World = Run +
  db :: StatusDb
  disk :: StatusDb

record Cycle = Run +
  state :: ChannelState
  written :: "ChannelState option"

definition await :: "Env \<Rightarrow> event \<Rightarrow> 'a Run_scheme \<Rightarrow> 'a Run_scheme" where
  "await env e r = r\<lparr>trace := trace r @ [e], clock := clock r + latencyMs env e\<rparr>"

text \<open>
  An await that takes \<open>ms\<close> milliseconds from now is answered by the deadline or not. When
  it is not, the run is looked at with the call made and the clock at the deadline.
\<close>

definition answered :: "nat option \<Rightarrow> nat \<Rightarrow> 'a Run_scheme \<Rightarrow> bool" where
  "answered deadline ms r = (case deadline of None \<Rightarrow> True | Some d \<Rightarrow> clock r + ms \<le> d)"

definition stopped :: "nat option \<Rightarrow> 'a Run_scheme \<Rightarrow> 'a Run_scheme" where
  "stopped deadline r = (case deadline of None \<Rightarrow> r | Some d \<Rightarrow> r\<lparr>clock := d\<rparr>)"

definition unanswered :: "nat option \<Rightarrow> event \<Rightarrow> 'a Run_scheme \<Rightarrow> 'a Run_scheme" where
  "unanswered deadline e r = stopped deadline (r\<lparr>trace := trace r @ [e]\<rparr>)"

definition console_log :: "logline \<Rightarrow> 'a Run_scheme \<Rightarrow> 'a Run_scheme" where
  "console_log l r = r\<lparr>console := console r @ [l]\<rparr>"

definition statusDb_write :: "Env \<Rightarrow> Cycle \<Rightarrow> Cycle" where
  "statusDb_write env c = (await env Write c)\<lparr>written := Some (state c)\<rparr>"

definition awaitWrite :: "nat option \<Rightarrow> Env \<Rightarrow> Cycle \<Rightarrow> outcome \<times> Cycle" where
  "awaitWrite deadline env c =
     (if answered deadline (latencyMs env Write) c then (Resolved, statusDb_write env c)
      else (Pending, unanswered deadline Write c))"

definition enter :: "World \<Rightarrow> ChannelState \<Rightarrow> Cycle" where
  "enter w st =
     \<lparr>trace = trace w, console = console w, clock = clock w, state = st, written = None\<rparr>"

text \<open>
  \<^verbatim>\<open>statusDb.write()\<close> stores the whole of \<^verbatim>\<open>statusDb.data\<close>: the other channels as they
  are in memory, this channel as it was at the write.
\<close>

definition leave :: "string \<Rightarrow> World \<Rightarrow> Cycle \<Rightarrow> World" where
  "leave channelName w c =
     \<lparr>trace = trace c, console = console c, clock = clock c,
      db = AList.update channelName (state c) (db w),
      disk = (case written c of
                None \<Rightarrow> disk w
              | Some s \<Rightarrow> AList.update channelName s (db w))\<rparr>"

section \<open>\<^verbatim>\<open>update\<close> (index.ts, lines 70 to 221)\<close>

definition getBot :: "Config \<Rightarrow> string \<Rightarrow> error + string" where
  "getBot config name =
     (if name \<in> set (bots config) then Inr name else Inl (UnknownBot name))"

text \<open>Lines 93 to 125: the offline branch. A failed unpin is caught and warned about.\<close>

fun unpinLoop ::
  "nat option \<Rightarrow> Env \<Rightarrow> (int \<times> int option) list \<Rightarrow> Cycle \<Rightarrow> outcome \<times> Cycle" where
  "unpinLoop deadline env [] c = (Resolved, c)"
| "unpinLoop deadline env ((groupId, lastGroupMessageId) # rest) c =
     (case lastGroupMessageId of
        None \<Rightarrow> unpinLoop deadline env rest c
      | Some m \<Rightarrow>
          if m = 0 then unpinLoop deadline env rest c
          else if \<not> answered deadline (latencyMs env (UnpinChatMessage groupId m)) c
          then (Pending, unanswered deadline (UnpinChatMessage groupId m) c)
          else
            let c1 = await env (UnpinChatMessage groupId m) c;
                c2 = (if unpinChatMessage env groupId m then c1
                      else console_log (ConsoleWarn ''Unable to unpin message'') c1);
                c3 = c2\<lparr>state := (state c2)\<lparr>groups :=
                        AList.update groupId None (groups (state c2))\<rparr>\<rparr>
            in if \<not> answered deadline (latencyMs env Write) c3
               then (Pending, unanswered deadline Write c3)
               else unpinLoop deadline env rest (statusDb_write env c3))"

text \<open>Lines 142 and 143: the text of the notification.\<close>

definition formatMessage :: "Env \<Rightarrow> HelixStream \<Rightarrow> string" where
  "formatMessage env stream =
     (let streamLinkHtml =
            ''<a href='' @ [CHR 0x27] @ ''https://twitch.tv/'' @ userName stream @
            ''?rid='' @ randomHex env @ [CHR 0x27] @ ''>twitch.tv/'' @ userName stream @
            ''</a>''
      in escape env (title stream) @ '' <b>| IN ONDA |</b> '' @ streamLinkHtml)"

text \<open>
  Lines 149 to 158 and 159 to 168: the two edit loops, which differ in the object they
  walk and in the line they print. A failed edit is not caught.
\<close>

fun editLoop ::
  "nat option \<Rightarrow> Env \<Rightarrow> string \<Rightarrow> string \<Rightarrow> (int \<times> int option) list \<Rightarrow> Cycle \<times> bool
    \<Rightarrow> outcome \<times> Cycle \<times> bool" where
  "editLoop deadline env message missing [] (c, changes) = (Resolved, c, changes)"
| "editLoop deadline env message missing ((chatId, lastMessageId) # rest) (c, changes) =
     (case lastMessageId of
        None \<Rightarrow>
          editLoop deadline env message missing rest
            (console_log (ConsoleError missing) c, changes)
      | Some m \<Rightarrow>
          if m = 0 then
            editLoop deadline env message missing rest
              (console_log (ConsoleError missing) c, changes)
          else if \<not> answered deadline (latencyMs env (EditMessageText chatId m message)) c
          then (Pending, unanswered deadline (EditMessageText chatId m message) c, changes)
          else
            let c1 = await env (EditMessageText chatId m message) c
            in if editMessageText env chatId m message
               then editLoop deadline env message missing rest (c1, True)
               else (Rejected (TelegramError (EditMessageText chatId m message)), c1, changes))"

text \<open>
  Lines 180 to 185 and 186 to 191: a loop over the keys of one object that deletes from
  an object the keys \<^verbatim>\<open>channelConfig.channelIds\<close> does not include.
\<close>

fun cleanup ::
  "int list \<Rightarrow> int list \<Rightarrow> (int \<times> int option) list \<Rightarrow> (int \<times> int option) list" where
  "cleanup configured [] obj = obj"
| "cleanup configured (k # ks) obj =
     (if k \<in> set configured then cleanup configured ks obj
      else cleanup configured ks (AList.delete k obj))"

text \<open>Lines 194 to 199 and 200 to 218: the two send loops. No failure is caught.\<close>

fun sendChannels ::
  "nat option \<Rightarrow> Env \<Rightarrow> string \<Rightarrow> int list \<Rightarrow> Cycle \<Rightarrow> outcome \<times> Cycle" where
  "sendChannels deadline env message [] c = (Resolved, c)"
| "sendChannels deadline env message (channelId # rest) c =
     (if \<not> answered deadline (latencyMs env (SendMessage channelId message)) c
      then (Pending, unanswered deadline (SendMessage channelId message) c)
      else
        let c1 = await env (SendMessage channelId message) c
        in case sendMessage env channelId message of
             None \<Rightarrow> (Rejected (TelegramError (SendMessage channelId message)), c1)
           | Some message_id \<Rightarrow>
               sendChannels deadline env message rest
                 (c1\<lparr>state := (state c1)\<lparr>channels :=
                        AList.update channelId (Some message_id) (channels (state c1))\<rparr>\<rparr>))"

fun sendGroups ::
  "nat option \<Rightarrow> Env \<Rightarrow> string \<Rightarrow> int list \<Rightarrow> Cycle \<Rightarrow> outcome \<times> Cycle" where
  "sendGroups deadline env message [] c = (Resolved, c)"
| "sendGroups deadline env message (groupId # rest) c =
     (if \<not> answered deadline (latencyMs env (SendMessage groupId message)) c
      then (Pending, unanswered deadline (SendMessage groupId message) c)
      else
        let c1 = await env (SendMessage groupId message) c
        in case sendMessage env groupId message of
             None \<Rightarrow> (Rejected (TelegramError (SendMessage groupId message)), c1)
           | Some message_id \<Rightarrow>
               let c2 = c1\<lparr>state := (state c1)\<lparr>groups :=
                            AList.update groupId (Some message_id) (groups (state c1))\<rparr>\<rparr>
               in if \<not> answered deadline (latencyMs env (PinChatMessage groupId message_id)) c2
                  then (Pending, unanswered deadline (PinChatMessage groupId message_id) c2)
                  else
                    let c3 = await env (PinChatMessage groupId message_id) c2
                    in if pinChatMessage env groupId message_id
                       then sendGroups deadline env message rest c3
                       else (Rejected (TelegramError (PinChatMessage groupId message_id)), c3))"

text \<open>Lines 130 to 220: the online branch.\<close>

definition handleOnline ::
  "nat option \<Rightarrow> Env \<Rightarrow> ConfigChannelEntry \<Rightarrow> HelixStream \<Rightarrow> Cycle \<Rightarrow> outcome \<times> Cycle" where
  "handleOnline deadline env channelConfig stream c =
     (if lastStreamTitle (state c) = Some (title stream) then (Resolved, c)
      else
        let c1 = c\<lparr>state := (state c)\<lparr>lastStreamTitle := Some (title stream)\<rparr>\<rparr>;
            message = formatMessage env stream
        in
          if lastStreamId (state c1) = Some (id_stream stream) then
            (case editLoop deadline env message ''Missing last message id in status! Skip...''
                    (Object_entries (channels (state c1))) (c1, False) of
               (Rejected e, c2, changes) \<Rightarrow> (Rejected e, c2)
             | (Pending, c2, changes) \<Rightarrow> (Pending, c2)
             | (Resolved, c2, changes) \<Rightarrow>
                 (case editLoop deadline env message
                         ''Missing last group message id in status! Skip...''
                         (Object_entries (groups (state c2))) (c2, changes) of
                    (Rejected e, c3, changes') \<Rightarrow> (Rejected e, c3)
                  | (Pending, c3, changes') \<Rightarrow> (Pending, c3)
                  | (Resolved, c3, changes') \<Rightarrow>
                      (if changes' then awaitWrite deadline env c3 else (Resolved, c3))))
          else
            let c2 = c1\<lparr>state := (state c1)\<lparr>lastStreamId := Some (id_stream stream)\<rparr>\<rparr>;
                c3 = c2\<lparr>state := (state c2)\<lparr>channels :=
                         cleanup (channelIds channelConfig)
                           (forIn_keys (channels (state c2))) (channels (state c2))\<rparr>\<rparr>;
                c4 = c3\<lparr>state := (state c3)\<lparr>channels :=
                         cleanup (channelIds channelConfig)
                           (forIn_keys (groups (state c3))) (channels (state c3))\<rparr>\<rparr>
            in
              (case sendChannels deadline env message (channelIds channelConfig) c4 of
                 (Rejected e, c5) \<Rightarrow> (Rejected e, c5)
               | (Pending, c5) \<Rightarrow> (Pending, c5)
               | (Resolved, c5) \<Rightarrow>
                   (case sendGroups deadline env message (groupIds channelConfig) c5 of
                      (Rejected e, c6) \<Rightarrow> (Rejected e, c6)
                    | (Pending, c6) \<Rightarrow> (Pending, c6)
                    | (Resolved, c6) \<Rightarrow> awaitWrite deadline env c6)))"

text \<open>
  The whole function, looked at up to a deadline. \<^verbatim>\<open>statusDb.data[channelName]\<close> may be
  undefined; reading a property of it then throws a TypeError, in either branch that reads
  one.
\<close>

definition updateUntil ::
  "nat option \<Rightarrow> Config \<Rightarrow> Env \<Rightarrow> string \<Rightarrow> ConfigChannelEntry \<Rightarrow> World
    \<Rightarrow> outcome \<times> World" where
  "updateUntil deadline config env channelName channelConfig w =
     (case getBot config (bot_cfg channelConfig) of
        Inl e \<Rightarrow> (Rejected e, w)
      | Inr b \<Rightarrow>
          if \<not> answered deadline (lookupMs env channelName) w
          then (Pending, stopped deadline w)
          else
            let w1 = w\<lparr>clock := clock w + lookupMs env channelName\<rparr>
            in (case getStatus env channelName of
                 LookupThrows \<Rightarrow> (Rejected ApiError, w1)
               | EmptyResult \<Rightarrow> (Resolved, w1)
               | NotOnline \<Rightarrow>
                   (case map_of (db w1) channelName of
                      None \<Rightarrow> (Rejected TypeError, w1)
                    | Some st \<Rightarrow>
                        (case unpinLoop deadline env (Object_entries (groups st))
                                (enter w1 st) of
                           (out, c) \<Rightarrow> (out, leave channelName w1 c)))
               | Online stream \<Rightarrow>
                   (case map_of (db w1) channelName of
                      None \<Rightarrow> (Rejected TypeError, w1)
                    | Some st \<Rightarrow>
                        (case handleOnline deadline env channelConfig stream (enter w1 st) of
                           (out, c) \<Rightarrow> (out, leave channelName w1 c)))))"

text \<open>The function left alone until it settles.\<close>

definition update ::
  "Config \<Rightarrow> Env \<Rightarrow> string \<Rightarrow> ConfigChannelEntry \<Rightarrow> World \<Rightarrow> outcome \<times> World" where
  "update config env channelName channelConfig w =
     updateUntil None config env channelName channelConfig w"

section \<open>The sweep (index.ts, lines 240 to 282; utils.ts)\<close>

text \<open>
  \<^verbatim>\<open>fulfillWithTimeLimit\<close> races the task against a timer. The task is the promise the
  caller has started, given here by what it has come to at each deadline. When the task
  settles within the limit, its outcome is returned (the task wins a tie, being the first
  element of the array given to \<^verbatim>\<open>Promise.race\<close>). When it is still pending at the
  limit, the timeout error is thrown in the world of that moment; nothing stops the task,
  which goes on from there.
\<close>

definition fulfillWithTimeLimit ::
  "nat \<Rightarrow> World \<Rightarrow> (nat option \<Rightarrow> outcome \<times> World) \<Rightarrow> outcome \<times> World" where
  "fulfillWithTimeLimit timeLimit w task =
     (case task (Some (clock w + timeLimit)) of
        (Pending, w') \<Rightarrow> (Rejected TaskTimeout, w')
      | (Resolved, w') \<Rightarrow> (Resolved, w')
      | (Rejected e, w') \<Rightarrow> (Rejected e, w'))"

fun updateEach ::
  "Config \<Rightarrow> Env \<Rightarrow> (string \<times> ConfigChannelEntry) list \<Rightarrow> World \<Rightarrow> outcome \<times> World" where
  "updateEach config env [] w = (Resolved, w)"
| "updateEach config env ((channel, channelConfig) # rest) w =
     (case fulfillWithTimeLimit (15 * 1000) w
             (\<lambda>deadline. updateUntil deadline config env channel channelConfig w) of
        (Resolved, w') \<Rightarrow> updateEach config env rest w'
      | (out, w') \<Rightarrow> (out, w'))"

text \<open>Lines 245 to 253: the channels of the database that the configuration lacks.\<close>

fun dbCleanup :: "Config \<Rightarrow> string list \<Rightarrow> StatusDb \<times> bool \<Rightarrow> StatusDb \<times> bool" where
  "dbCleanup config [] (data, changes) = (data, changes)"
| "dbCleanup config (channel # rest) (data, changes) =
     (if map_of (channels_cfg config) channel \<noteq> None
      then dbCleanup config rest (data, changes)
      else dbCleanup config rest (AList.delete channel data, True))"

definition updateAll :: "Config \<Rightarrow> Env \<Rightarrow> World \<Rightarrow> outcome \<times> World" where
  "updateAll config env w =
     (case updateEach config env (channels_cfg config) w of
        (Resolved, w1) \<Rightarrow>
          (case dbCleanup config (map fst (db w1)) (db w1, False) of
             (data, changes) \<Rightarrow>
               (Resolved,
                if changes then (await env Write (w1\<lparr>db := data\<rparr>))\<lparr>disk := data\<rparr>
                else w1))
      | (out, w1) \<Rightarrow> (out, w1))"

text \<open>
  The update that the time limit has left running when it ended the sweep, if there is
  one: its channel and the world it started in.
\<close>

fun abandoned ::
  "Config \<Rightarrow> Env \<Rightarrow> (string \<times> ConfigChannelEntry) list \<Rightarrow> World
    \<Rightarrow> (string \<times> ConfigChannelEntry \<times> World) option" where
  "abandoned config env [] w = None"
| "abandoned config env ((channel, channelConfig) # rest) w =
     (case updateUntil (Some (clock w + 15 * 1000)) config env channel channelConfig w of
        (Pending, w') \<Rightarrow> Some (channel, channelConfig, w)
      | (Resolved, w') \<Rightarrow> abandoned config env rest w'
      | (Rejected e, w') \<Rightarrow> None)"

text \<open>
  Lines 271 to 282: one turn of the top-level loop, with no shutdown signal during it
  and no update of an earlier turn still running when it starts. The error of a rejected
  sweep is printed, then the loop sleeps. An update left running by the time limit goes
  on while it does: the world at the end of the sleep is what that update has come to by
  then, its lines on the console after the line of the error.
\<close>

definition sleepMs :: nat where
  "sleepMs = 30 * 10000"

definition loopBody :: "Config \<Rightarrow> Env \<Rightarrow> World \<Rightarrow> World" where
  "loopBody config env w =
     (case updateAll config env w of
        (Rejected e, w1) \<Rightarrow>
          (case abandoned config env (channels_cfg config) w of
             None \<Rightarrow> (console_log (ConsoleThrown e) w1)\<lparr>clock := clock w1 + sleepMs\<rparr>
           | Some (channel, channelConfig, w0) \<Rightarrow>
               (case updateUntil (Some (clock w1 + sleepMs)) config env channel channelConfig w0 of
                  (out, w2) \<Rightarrow>
                    w2\<lparr>console := console w1 @ [ConsoleThrown e] @
                                   drop (length (console w1)) (console w2),
                       clock := clock w1 + sleepMs\<rparr>))
      | (out, w1) \<Rightarrow> w1\<lparr>clock := clock w1 + sleepMs\<rparr>)"

section \<open>Notions used to state the properties\<close>

text \<open>
  The test \<^verbatim>\<open>!lastMessageId\<close> of the source holds of \<^verbatim>\<open>null\<close> and of the number 0;
  Telegram numbers its messages from 1. An entry is recorded when its message id passes
  the test.
\<close>

fun truthy :: "int option \<Rightarrow> bool" where
  "truthy None = False"
| "truthy (Some m) = (m \<noteq> 0)"

fun recorded :: "(int \<times> int option) list \<Rightarrow> (int \<times> int) list" where
  "recorded [] = []"
| "recorded ((k, None) # es) = recorded es"
| "recorded ((k, Some m) # es) = (if m = 0 then recorded es else (k, m) # recorded es)"

definition unpinned :: "(int \<times> int option) list \<Rightarrow> (int \<times> int option) list" where
  "unpinned obj = map (\<lambda>(k, v). (k, if truthy v then None else v)) obj"

text \<open>
  The state a new stream leaves when every send succeeds: the entries of \<^verbatim>\<open>channels\<close>
  outside the configured channel ids are gone, and every configured chat has the message
  id that \<^verbatim>\<open>sendMessage\<close> returned.
\<close>

definition recordSends ::
  "Env \<Rightarrow> string \<Rightarrow> int list \<Rightarrow> (int \<times> int option) list \<Rightarrow> (int \<times> int option) list" where
  "recordSends env message ids obj = fold (\<lambda>i. AList.update i (sendMessage env i message)) ids obj"

definition notified :: "Env \<Rightarrow> ConfigChannelEntry \<Rightarrow> HelixStream \<Rightarrow> ChannelState \<Rightarrow> ChannelState" where
  "notified env channelConfig stream st =
     \<lparr>lastStreamId = Some (id_stream stream),
      lastStreamTitle = Some (title stream),
      channels = recordSends env (formatMessage env stream) (channelIds channelConfig)
                   (filter (\<lambda>e. fst e \<in> set (channelIds channelConfig)) (channels st)),
      groups = recordSends env (formatMessage env stream) (groupIds channelConfig) (groups st)\<rparr>"

text \<open>
  A call is rejected when Telegram answers it with an error. The calls of a cycle stop
  at the first rejected one: either the cycle resolves and no call of it was rejected, or
  it is rejected with the error of its last call, every call before that one was accepted
  and nothing was written.
\<close>

fun rejected :: "Env \<Rightarrow> event \<Rightarrow> bool" where
  "rejected env (SendMessage chat text) = (sendMessage env chat text = None)"
| "rejected env (EditMessageText chat m text) = (\<not> editMessageText env chat m text)"
| "rejected env (PinChatMessage chat m) = (\<not> pinChatMessage env chat m)"
| "rejected env (UnpinChatMessage chat m) = (\<not> unpinChatMessage env chat m)"
| "rejected env Write = False"

definition aborted_at_first_rejection :: "Env \<Rightarrow> outcome \<Rightarrow> event list \<Rightarrow> bool" where
  "aborted_at_first_rejection env out new \<longleftrightarrow>
     (case out of
        Resolved \<Rightarrow> list_all (\<lambda>e. \<not> rejected env e) new
      | Rejected err \<Rightarrow>
          new \<noteq> [] \<and> err = TelegramError (last new) \<and> rejected env (last new) \<and>
          list_all (\<lambda>e. \<not> rejected env e) (butlast new) \<and> Write \<notin> set new
      | Pending \<Rightarrow> False)"

section \<open>A configuration to run the definitions on\<close>

text \<open>
  The channel \<^verbatim>\<open>foo\<close> with one direct channel, 100, and one group, 200. Telegram answers
  every call, a message sent to chat \<open>n\<close> getting the id \<open>n + 1\<close>.
\<close>

definition foo_entry :: ConfigChannelEntry where
  "foo_entry = \<lparr>groupIds = [200], channelIds = [100], bot_cfg = ''main''\<rparr>"

definition foo_config :: Config where
  "foo_config = \<lparr>channels_cfg = [(''foo'', foo_entry)], bots = [''main'']\<rparr>"

definition foo_env :: "status \<Rightarrow> Env" where
  "foo_env s =
     \<lparr>getStatus = (\<lambda>name. s),
      sendMessage = (\<lambda>chat text. Some (chat + 1)),
      editMessageText = (\<lambda>chat m text. True),
      pinChatMessage = (\<lambda>chat m. True),
      unpinChatMessage = (\<lambda>chat m. True),
      escape = (\<lambda>text. text),
      randomHex = ''00a1b2c3d4'',
      lookupMs = (\<lambda>name. 100),
      latencyMs = (\<lambda>e. 50)\<rparr>"

definition foo_world :: "ChannelState \<Rightarrow> World" where
  "foo_world st =
     \<lparr>trace = [], console = [], clock = 0, db = [(''foo'', st)], disk = [(''foo'', st)]\<rparr>"

definition foo_live :: ChannelState where
  "foo_live =
     \<lparr>lastStreamId = Some ''a'', lastStreamTitle = Some ''Hello'',
      channels = [(100, Some 7)], groups = [(200, Some 8)]\<rparr>"

definition foo_idle :: ChannelState where
  "foo_idle = \<lparr>lastStreamId = None, lastStreamTitle = None, channels = [], groups = []\<rparr>"

definition hello :: HelixStream where
  "hello = \<lparr>id_stream = ''a'', title = ''Hello'', userName = ''foo''\<rparr>"

definition hello_world :: HelixStream where
  "hello_world = \<lparr>id_stream = ''a'', title = ''Hello World'', userName = ''foo''\<rparr>"

definition again :: HelixStream where
  "again = \<lparr>id_stream = ''b'', title = ''Again'', userName = ''foo''\<rparr>"

definition hello_again :: HelixStream where
  "hello_again = \<lparr>id_stream = ''b'', title = ''Hello'', userName = ''foo''\<rparr>"

definition foo_stale :: ChannelState where
  "foo_stale =
     \<lparr>lastStreamId = Some ''a'', lastStreamTitle = Some ''Hello'',
      channels = [(150, Some 5), (100, Some 7)],
      groups = [(300, Some 6), (200, Some 8)]\<rparr>"

lemmas foo_defs = foo_entry_def foo_config_def foo_env_def foo_world_def
  Object_entries_def isArrayIndex_def

text \<open>
  The same channel with three groups, and a Telegram that rejects every message sent to
  the group 300.
\<close>

definition trio_entry :: ConfigChannelEntry where
  "trio_entry = \<lparr>groupIds = [200, 300, 400], channelIds = [100], bot_cfg = ''main''\<rparr>"

definition trio_config :: Config where
  "trio_config = \<lparr>channels_cfg = [(''foo'', trio_entry)], bots = [''main'']\<rparr>"

definition deaf_env :: "status \<Rightarrow> Env" where
  "deaf_env s =
     (foo_env s)\<lparr>sendMessage := (\<lambda>chat text. if chat = 300 then None else Some (chat + 1))\<rparr>"

text \<open>
  A Telegram that rejects every edit in the chat 100; one that rejects every pin; and the
  channel \<^verbatim>\<open>foo\<close> with a second direct channel, 150, with a Telegram that rejects every
  message sent to it.
\<close>

definition mute_env :: "status \<Rightarrow> Env" where
  "mute_env s = (foo_env s)\<lparr>editMessageText := (\<lambda>chat m text. chat \<noteq> 100)\<rparr>"

definition loose_env :: "status \<Rightarrow> Env" where
  "loose_env s = (foo_env s)\<lparr>pinChatMessage := (\<lambda>chat m. False)\<rparr>"

definition twin_entry :: ConfigChannelEntry where
  "twin_entry = \<lparr>groupIds = [200], channelIds = [100, 150], bot_cfg = ''main''\<rparr>"

definition twin_config :: Config where
  "twin_config = \<lparr>channels_cfg = [(''foo'', twin_entry)], bots = [''main'']\<rparr>"

definition shut_env :: "status \<Rightarrow> Env" where
  "shut_env s =
     (foo_env s)\<lparr>sendMessage := (\<lambda>chat text. if chat = 150 then None else Some (chat + 1))\<rparr>"

text \<open>
  Two channels, \<^verbatim>\<open>foo\<close> before \<^verbatim>\<open>bar\<close>, with a stream lookup that throws for
  \<^verbatim>\<open>foo\<close>; and a Telegram that takes twenty seconds to answer each call.
\<close>

definition duo_config :: Config where
  "duo_config =
     \<lparr>channels_cfg = [(''foo'', foo_entry), (''bar'', foo_entry)], bots = [''main'']\<rparr>"

definition duo_world :: World where
  "duo_world =
     \<lparr>trace = [], console = [], clock = 0,
      db = [(''foo'', foo_idle), (''bar'', foo_idle)],
      disk = [(''foo'', foo_idle), (''bar'', foo_idle)]\<rparr>"

definition duo_env :: Env where
  "duo_env =
     (foo_env (Online hello))
       \<lparr>getStatus := (\<lambda>name. if name = ''foo'' then LookupThrows else Online hello)\<rparr>"

definition slow_env :: "status \<Rightarrow> Env" where
  "slow_env s = (foo_env s)\<lparr>latencyMs := (\<lambda>e. 20000)\<rparr>"

lemmas run_defs = update_def updateUntil_def getBot_def Let_def handleOnline_def enter_def
  leave_def await_def statusDb_write_def console_log_def forIn_keys_def answered_def
  stopped_def unanswered_def awaitWrite_def

section \<open>Lemmas\<close>

lemma answered_None [simp]: "answered None ms r"
  by (simp add: answered_def)

lemma awaitWrite_None [simp]: "awaitWrite None env c = (Resolved, statusDb_write env c)"
  by (simp add: awaitWrite_def)

lemma set_Object_entries: "set (Object_entries obj) = set obj"
  by (auto simp: Object_entries_def)

lemma distinct_Object_entries:
  "distinct (map fst obj) \<Longrightarrow> distinct (map fst (Object_entries obj))"
  apply (simp add: Object_entries_def distinct_map_filter)
  apply (auto simp: distinct_map inj_on_def)
  done

lemma await_fields [simp]:
  "trace (await env e r) = trace r @ [e]"
  "console (await env e r) = console r"
  "clock (await env e r) = clock r + latencyMs env e"
  "state (await env e c) = state c"
  "written (await env e c) = written c"
  by (simp_all add: await_def)

lemma stopped_fields [simp]:
  "trace (stopped deadline r) = trace r"
  "console (stopped deadline r) = console r"
  "clock (stopped (Some d) r) = d"
  "state (stopped deadline c) = state c"
  "written (stopped deadline c) = written c"
  "db (stopped deadline w) = db w"
  "disk (stopped deadline w) = disk w"
  by (simp_all add: stopped_def split: option.splits)

lemma unanswered_fields [simp]:
  "trace (unanswered deadline e r) = trace r @ [e]"
  "console (unanswered deadline e r) = console r"
  "clock (unanswered (Some d) e r) = d"
  "state (unanswered deadline e c) = state c"
  "written (unanswered deadline e c) = written c"
  by (simp_all add: unanswered_def stopped_def split: option.splits)

lemma console_log_fields [simp]:
  "trace (console_log l r) = trace r"
  "console (console_log l r) = console r @ [l]"
  "clock (console_log l r) = clock r"
  "state (console_log l c) = state c"
  "written (console_log l c) = written c"
  by (simp_all add: console_log_def)

lemma statusDb_write_fields [simp]:
  "trace (statusDb_write env c) = trace c @ [Write]"
  "console (statusDb_write env c) = console c"
  "clock (statusDb_write env c) = clock c + latencyMs env Write"
  "state (statusDb_write env c) = state c"
  "written (statusDb_write env c) = Some (state c)"
  by (simp_all add: statusDb_write_def)

lemma unpinLoop_resolves: "fst (unpinLoop None env es c) = Resolved"
  by (induction es arbitrary: c rule: recorded.induct) (simp_all add: Let_def)

lemma unpinLoop_trace:
  "trace (snd (unpinLoop None env es c)) =
     trace c @ concat (map (\<lambda>(g, m). [UnpinChatMessage g m, Write]) (recorded es))"
  by (induction es arbitrary: c rule: recorded.induct) (simp_all add: Let_def)

lemma update_map:
  "distinct (map fst obj) \<Longrightarrow> g \<in> fst ` set obj \<Longrightarrow>
   AList.update g v obj = map (\<lambda>(k, x). (k, if k = g then v else x)) obj"
proof (induction obj)
  case Nil
  then show ?case by simp
next
  case (Cons p obj)
  show ?case
  proof (cases "fst p = g")
    case True
    then have "g \<notin> fst ` set obj" using Cons.prems(1) by auto
    then have "map (\<lambda>(k, x). (k, if k = g then v else x)) obj = obj"
      by (intro map_idI) (auto simp: rev_image_eqI)
    then show ?thesis using True by (simp add: case_prod_unfold)
  next
    case False
    then show ?thesis using Cons by (auto simp: case_prod_unfold)
  qed
qed

lemma unpinLoop_state:
  "distinct (map fst (groups (state c))) \<Longrightarrow>
   \<forall>(g, v) \<in> set es. truthy v \<longrightarrow> g \<in> fst ` set (groups (state c)) \<Longrightarrow>
   state (snd (unpinLoop None env es c)) =
     (state c)\<lparr>groups :=
        map (\<lambda>(k, v). (k, if k \<in> fst ` set (recorded es) then None else v))
          (groups (state c))\<rparr>"
proof (induction es arbitrary: c rule: recorded.induct)
  case 1
  then show ?case by (simp add: case_prod_unfold)
next
  case (2 k es)
  then show ?case by simp
next
  case (3 k m es)
  show ?case
  proof (cases "m = 0")
    case True
    with 3 show ?thesis by simp
  next
    case False
    define c' where "c' = statusDb_write env
        ((if unpinChatMessage env k m then await env (UnpinChatMessage k m) c
          else console_log (ConsoleWarn ''Unable to unpin message'')
                 (await env (UnpinChatMessage k m) c))
         \<lparr>state := (state c)\<lparr>groups := AList.update k None (groups (state c))\<rparr>\<rparr>)"
    have k: "k \<in> fst ` set (groups (state c))" using 3(4) False by simp
    have upd: "AList.update k None (groups (state c)) =
        map (\<lambda>(k', x). (k', if k' = k then None else x)) (groups (state c))"
      using update_map[OF 3(3) k] .
    have st: "state c' = (state c)\<lparr>groups := AList.update k None (groups (state c))\<rparr>"
      by (simp add: c'_def)
    have d: "distinct (map fst (groups (state c')))"
      using 3(3) by (simp add: st AList.distinct_update)
    have sub: "\<forall>(g, v) \<in> set es. truthy v \<longrightarrow> g \<in> fst ` set (groups (state c'))"
      using 3(4) by (auto simp: st AList.dom_update)
    have "unpinLoop None env ((k, Some m) # es) c = unpinLoop None env es c'"
      using False by (simp add: Let_def c'_def)
    then have "state (snd (unpinLoop None env ((k, Some m) # es) c)) =
       (state c')\<lparr>groups :=
        map (\<lambda>(k, v). (k, if k \<in> fst ` set (recorded es) then None else v))
          (groups (state c'))\<rparr>"
      using 3(2)[OF False d sub] by simp
    then show ?thesis
      using False by (simp add: st upd case_prod_unfold comp_def)
  qed
qed

lemma unpinLoop_nothing:
  "recorded es = [] \<Longrightarrow> unpinLoop None env es c = (Resolved, c)"
  by (induction es arbitrary: c rule: recorded.induct) (simp_all split: if_splits)

lemma unpinLoop_written:
  "written (snd (unpinLoop None env es c)) =
     (if recorded es = [] then written c
      else Some (state (snd (unpinLoop None env es c))))"
  by (induction es arbitrary: c rule: recorded.induct)
     (simp_all add: Let_def unpinLoop_nothing)

lemma set_recorded: "set (recorded es) = {(k, m). (k, Some m) \<in> set es \<and> m \<noteq> 0}"
  by (induction es rule: recorded.induct) auto

lemma recorded_keys:
  assumes "distinct (map fst obj)" and "(k, v) \<in> set obj"
  shows "k \<in> fst ` set (recorded (Object_entries obj)) \<longleftrightarrow> truthy v"
proof
  assume "k \<in> fst ` set (recorded (Object_entries obj))"
  then obtain m where "(k, Some m) \<in> set obj" and "m \<noteq> 0"
    by (auto simp: set_recorded set_Object_entries)
  moreover from this assms have "v = Some m"
    by (meson eq_key_imp_eq_value)
  ultimately show "truthy v" by simp
next
  assume "truthy v"
  then obtain m where "v = Some m" and "m \<noteq> 0" by (cases v) auto
  with assms(2) have "(k, m) \<in> set (recorded (Object_entries obj))"
    by (simp add: set_recorded set_Object_entries)
  then show "k \<in> fst ` set (recorded (Object_entries obj))" by force
qed

lemma leave_fields [simp]:
  "trace (leave n w c) = trace c"
  "console (leave n w c) = console c"
  "clock (leave n w c) = clock c"
  "db (leave n w c) = AList.update n (state c) (db w)"
  "disk (leave n w c) =
     (case written c of None \<Rightarrow> disk w | Some s \<Rightarrow> AList.update n s (db w))"
  by (simp_all add: leave_def)

lemma enter_fields [simp]:
  "trace (enter w st) = trace w"
  "console (enter w st) = console w"
  "clock (enter w st) = clock w"
  "state (enter w st) = st"
  "written (enter w st) = None"
  by (simp_all add: enter_def)

lemma editLoop_state:
  "state (fst (snd (editLoop deadline env message missing es (c, changes)))) = state c"
  by (induction es arbitrary: c changes rule: recorded.induct) (simp_all add: Let_def)

lemma editLoop_written:
  "written (fst (snd (editLoop deadline env message missing es (c, changes)))) = written c"
  by (induction es arbitrary: c changes rule: recorded.induct) (simp_all add: Let_def)

lemma editLoop_frame:
  "editLoop deadline env message missing es (c, changes) = (out, c', changes') \<Longrightarrow>
   state c' = state c \<and> written c' = written c"
  using editLoop_state[of deadline env message missing es c changes]
    editLoop_written[of deadline env message missing es c changes] by simp

lemma editLoop_settles: "fst (editLoop None env message missing es (c, changes)) \<noteq> Pending"
  by (induction es arbitrary: c changes rule: recorded.induct) (simp_all add: Let_def)

lemma sendChannels_settles: "fst (sendChannels None env message ids c) \<noteq> Pending"
  by (induction ids arbitrary: c) (simp_all add: Let_def split: option.splits)

lemma sendGroups_settles: "fst (sendGroups None env message ids c) \<noteq> Pending"
  by (induction ids arbitrary: c) (simp_all add: Let_def split: option.splits)

lemma editLoop_settlesD:
  "editLoop None env message missing es (c, changes) = (out, c', changes') \<Longrightarrow> out \<noteq> Pending"
  using editLoop_settles[of env message missing es c changes] by simp

lemma sendChannels_settlesD:
  "sendChannels None env message ids c = (out, c') \<Longrightarrow> out \<noteq> Pending"
  using sendChannels_settles[of env message ids c] by simp

lemma sendGroups_settlesD:
  "sendGroups None env message ids c = (out, c') \<Longrightarrow> out \<noteq> Pending"
  using sendGroups_settles[of env message ids c] by simp

lemma sendChannels_frame:
  "lastStreamTitle (state (snd (sendChannels deadline env message ids c))) = lastStreamTitle (state c)"
  "lastStreamId (state (snd (sendChannels deadline env message ids c))) = lastStreamId (state c)"
  "groups (state (snd (sendChannels deadline env message ids c))) = groups (state c)"
  "written (snd (sendChannels deadline env message ids c)) = written c"
  by (induction ids arbitrary: c; simp add: Let_def split: option.splits)+

lemma sendGroups_frame:
  "lastStreamTitle (state (snd (sendGroups deadline env message ids c))) = lastStreamTitle (state c)"
  "lastStreamId (state (snd (sendGroups deadline env message ids c))) = lastStreamId (state c)"
  "channels (state (snd (sendGroups deadline env message ids c))) = channels (state c)"
  "written (snd (sendGroups deadline env message ids c)) = written c"
  by (induction ids arbitrary: c; simp add: Let_def split: option.splits)+

lemma sendChannels_frameD:
  "sendChannels deadline env message ids c = (out, c') \<Longrightarrow>
   lastStreamTitle (state c') = lastStreamTitle (state c) \<and>
   lastStreamId (state c') = lastStreamId (state c) \<and>
   groups (state c') = groups (state c) \<and> written c' = written c"
  using sendChannels_frame[of deadline env message ids c] by simp

lemma sendGroups_frameD:
  "sendGroups deadline env message ids c = (out, c') \<Longrightarrow>
   lastStreamTitle (state c') = lastStreamTitle (state c) \<and>
   lastStreamId (state c') = lastStreamId (state c) \<and>
   channels (state c') = channels (state c) \<and> written c' = written c"
  using sendGroups_frame[of deadline env message ids c] by simp

lemma handleOnline_duplicate:
  "lastStreamTitle (state c) = Some (title stream) \<Longrightarrow>
   handleOnline None env channelConfig stream c = (Resolved, c)"
  by (simp add: handleOnline_def)

lemma handleOnline_edit:
  assumes "lastStreamTitle (state c) \<noteq> Some (title stream)"
    and "lastStreamId (state c) = Some (id_stream stream)"
    and "editLoop None env (formatMessage env stream) ''Missing last message id in status! Skip...''
           (Object_entries (channels (state c)))
           (c\<lparr>state := (state c)\<lparr>lastStreamTitle := Some (title stream)\<rparr>\<rparr>, False)
         = (o1, c2, ch1)"
    and "editLoop None env (formatMessage env stream)
           ''Missing last group message id in status! Skip...''
           (Object_entries (groups (state c))) (c2, ch1)
         = (o2, c3, ch2)"
  shows "handleOnline None env channelConfig stream c =
           (case o1 of
              Rejected e \<Rightarrow> (Rejected e, c2)
            | Resolved \<Rightarrow>
                (case o2 of
                   Rejected e \<Rightarrow> (Rejected e, c3)
                 | Resolved \<Rightarrow> (Resolved, if ch2 then statusDb_write env c3 else c3)))"
proof -
  have "state c2 = (state c)\<lparr>lastStreamTitle := Some (title stream)\<rparr>"
    using editLoop_frame[OF assms(3)] by simp
  moreover have "o1 \<noteq> Pending" "o2 \<noteq> Pending"
    using editLoop_settlesD[OF assms(3)] editLoop_settlesD[OF assms(4)] by simp_all
  ultimately show ?thesis
    using assms by (simp add: handleOnline_def Let_def split: outcome.splits)
qed

lemma handleOnline_new:
  assumes "lastStreamTitle (state c) \<noteq> Some (title stream)"
    and "lastStreamId (state c) \<noteq> Some (id_stream stream)"
    and "sendChannels None env (formatMessage env stream) (channelIds channelConfig)
           (c\<lparr>state := (state c)
               \<lparr>lastStreamTitle := Some (title stream),
                lastStreamId := Some (id_stream stream),
                channels :=
                  cleanup (channelIds channelConfig) (forIn_keys (groups (state c)))
                    (cleanup (channelIds channelConfig) (forIn_keys (channels (state c)))
                       (channels (state c)))\<rparr>\<rparr>)
         = (o1, c5)"
    and "sendGroups None env (formatMessage env stream) (groupIds channelConfig) c5 = (o2, c6)"
  shows "handleOnline None env channelConfig stream c =
           (case o1 of
              Rejected e \<Rightarrow> (Rejected e, c5)
            | Resolved \<Rightarrow>
                (case o2 of
                   Rejected e \<Rightarrow> (Rejected e, c6)
                 | Resolved \<Rightarrow> (Resolved, statusDb_write env c6)))"
proof -
  have "o1 \<noteq> Pending" "o2 \<noteq> Pending"
    using sendChannels_settlesD[OF assms(3)] sendGroups_settlesD[OF assms(4)] by simp_all
  then show ?thesis
    using assms by (simp add: handleOnline_def Let_def split: outcome.splits)
qed

lemma handleOnline_title:
  "lastStreamTitle (state (snd (handleOnline None env channelConfig stream c))) = Some (title stream)"
proof (cases "lastStreamTitle (state c) = Some (title stream)")
  case True
  then show ?thesis by (simp add: handleOnline_duplicate)
next
  case new_title: False
  show ?thesis
  proof (cases "lastStreamId (state c) = Some (id_stream stream)")
    case True
    obtain o1 c2 ch1 where r1: "editLoop None env (formatMessage env stream)
        ''Missing last message id in status! Skip...''
        (Object_entries (channels (state c)))
        (c\<lparr>state := (state c)\<lparr>lastStreamTitle := Some (title stream)\<rparr>\<rparr>, False) = (o1, c2, ch1)"
      by (metis prod_cases3)
    obtain o2 c3 ch2 where r2: "editLoop None env (formatMessage env stream)
        ''Missing last group message id in status! Skip...''
        (Object_entries (groups (state c))) (c2, ch1) = (o2, c3, ch2)"
      by (metis prod_cases3)
    have s2: "state c2 = (state c)\<lparr>lastStreamTitle := Some (title stream)\<rparr>"
      using editLoop_frame[OF r1] by simp
    have s3: "state c3 = state c2" using editLoop_frame[OF r2] by simp
    show ?thesis
      unfolding handleOnline_edit[OF new_title True r1 r2]
      using s2 s3 editLoop_settlesD[OF r1] editLoop_settlesD[OF r2]
      by (simp split: outcome.splits)
  next
    case False
    obtain o1 c5 where r1: "sendChannels None env (formatMessage env stream) (channelIds channelConfig)
           (c\<lparr>state := (state c)
               \<lparr>lastStreamTitle := Some (title stream),
                lastStreamId := Some (id_stream stream),
                channels :=
                  cleanup (channelIds channelConfig) (forIn_keys (groups (state c)))
                    (cleanup (channelIds channelConfig) (forIn_keys (channels (state c)))
                       (channels (state c)))\<rparr>\<rparr>) = (o1, c5)"
      by (metis surj_pair)
    obtain o2 c6 where r2:
      "sendGroups None env (formatMessage env stream) (groupIds channelConfig) c5 = (o2, c6)"
      by (metis surj_pair)
    have s5: "lastStreamTitle (state c5) = Some (title stream)"
      using sendChannels_frameD[OF r1] by simp
    have s6: "lastStreamTitle (state c6) = Some (title stream)"
      using sendGroups_frameD[OF r2] s5 by simp
    show ?thesis
      unfolding handleOnline_new[OF new_title False r1 r2]
      using s5 s6 sendChannels_settlesD[OF r1] sendGroups_settlesD[OF r2]
      by (simp split: outcome.splits)
  qed
qed

lemma update_offline:
  assumes "bot_cfg channelConfig \<in> set (bots config)"
    and "getStatus env channelName = NotOnline"
    and "map_of (db w) channelName = Some st"
  shows "update config env channelName channelConfig w =
           (Resolved,
            leave channelName (w\<lparr>clock := clock w + lookupMs env channelName\<rparr>)
              (snd (unpinLoop None env (Object_entries (groups st))
                      (enter (w\<lparr>clock := clock w + lookupMs env channelName\<rparr>) st))))"
  using assms unpinLoop_resolves[of env "Object_entries (groups st)"
      "enter (w\<lparr>clock := clock w + lookupMs env channelName\<rparr>) st"]
  by (auto simp: update_def updateUntil_def getBot_def Let_def split: prod.splits)

lemma update_duplicate:
  assumes "bot_cfg channelConfig \<in> set (bots config)"
    and "getStatus env channelName = Online stream"
    and "map_of (db w) channelName = Some st"
    and "lastStreamTitle st = Some (title stream)"
  shows "update config env channelName channelConfig w =
           (Resolved, w\<lparr>clock := clock w + lookupMs env channelName\<rparr>)"
  using assms
  by (simp add: update_def updateUntil_def getBot_def Let_def handleOnline_duplicate leave_def enter_def
      AList.update_triv)

lemma update_online:
  assumes "bot_cfg channelConfig \<in> set (bots config)"
    and "getStatus env channelName = Online stream"
    and "map_of (db w) channelName = Some st"
  shows "update config env channelName channelConfig w =
           (fst (handleOnline None env channelConfig stream
                   (enter (w\<lparr>clock := clock w + lookupMs env channelName\<rparr>) st)),
            leave channelName (w\<lparr>clock := clock w + lookupMs env channelName\<rparr>)
              (snd (handleOnline None env channelConfig stream
                      (enter (w\<lparr>clock := clock w + lookupMs env channelName\<rparr>) st))))"
  using assms by (simp add: update_def updateUntil_def getBot_def Let_def split: prod.splits)


lemma cleanup_filter:
  "cleanup configured ks obj =
     filter (\<lambda>e. fst e \<in> set configured \<or> fst e \<notin> set ks) obj"
proof (induction ks arbitrary: obj)
  case Nil
  show ?case by simp
next
  case (Cons k ks)
  have "AList.delete k obj = filter (\<lambda>e. fst e \<noteq> k) obj"
    by (auto simp: AList.delete_eq case_prod_unfold intro!: filter_cong)
  then show ?case
    using Cons by (auto intro!: filter_cong)
qed

lemma set_forIn_keys: "set (forIn_keys obj) = fst ` set obj"
  by (simp add: forIn_keys_def set_Object_entries)

lemma cleanup_own_keys:
  "cleanup configured (forIn_keys obj) obj = filter (\<lambda>e. fst e \<in> set configured) obj"
  unfolding cleanup_filter set_forIn_keys by (rule filter_cong) auto

lemma cleanup_again:
  "cleanup configured ks (filter (\<lambda>e. fst e \<in> set configured) obj) =
     filter (\<lambda>e. fst e \<in> set configured) obj"
  unfolding cleanup_filter by (auto intro!: filter_cong)

lemma map_of_fold_update:
  "map_of (fold (\<lambda>i. AList.update i (f i)) ids obj) k =
     (if k \<in> set ids then Some (f k) else map_of obj k)"
  by (induction ids arbitrary: obj) (simp_all add: AList.update_conv')

lemma sendChannels_ok:
  assumes "\<forall>i \<in> set ids. sendMessage env i message \<noteq> None"
  shows "fst (sendChannels None env message ids c) = Resolved \<and>
         trace (snd (sendChannels None env message ids c)) =
           trace c @ map (\<lambda>i. SendMessage i message) ids \<and>
         console (snd (sendChannels None env message ids c)) = console c \<and>
         channels (state (snd (sendChannels None env message ids c))) =
           fold (\<lambda>i. AList.update i (sendMessage env i message)) ids (channels (state c))"
  using assms
proof (induction ids arbitrary: c)
  case Nil
  show ?case by simp
next
  case (Cons i ids)
  then obtain m where m: "sendMessage env i message = Some m" by auto
  from Cons.prems have "\<forall>i \<in> set ids. sendMessage env i message \<noteq> None" by simp
  note ih = Cons.IH[OF this]
  show ?case
    using m by (simp add: Let_def ih)
qed

lemma sendGroups_ok:
  assumes "\<forall>g \<in> set ids. sendMessage env g message \<noteq> None"
    and "\<forall>g \<in> set ids. pinChatMessage env g (the (sendMessage env g message))"
  shows "fst (sendGroups None env message ids c) = Resolved \<and>
         trace (snd (sendGroups None env message ids c)) =
           trace c @ concat (map (\<lambda>g. [SendMessage g message,
                PinChatMessage g (the (sendMessage env g message))]) ids) \<and>
         console (snd (sendGroups None env message ids c)) = console c \<and>
         groups (state (snd (sendGroups None env message ids c))) =
           fold (\<lambda>g. AList.update g (sendMessage env g message)) ids (groups (state c))"
  using assms
proof (induction ids arbitrary: c)
  case Nil
  show ?case by simp
next
  case (Cons g ids)
  then obtain m where m: "sendMessage env g message = Some m" by auto
  from Cons.prems have pin: "pinChatMessage env g m" using m by simp
  from Cons.prems have "\<forall>g \<in> set ids. sendMessage env g message \<noteq> None"
    and "\<forall>g \<in> set ids. pinChatMessage env g (the (sendMessage env g message))" by simp_all
  note ih = Cons.IH[OF this]
  show ?case
    using m pin by (simp add: Let_def ih)
qed

lemma map_of_recordSends:
  "map_of (recordSends env message ids obj) k =
     (if k \<in> set ids then Some (sendMessage env k message) else map_of obj k)"
  by (simp add: recordSends_def map_of_fold_update)

lemma aborted_Nil [simp]: "aborted_at_first_rejection env Resolved []"
  by (simp add: aborted_at_first_rejection_def)

lemma aborted_Cons:
  "\<not> rejected env e \<Longrightarrow> e \<noteq> Write \<Longrightarrow> aborted_at_first_rejection env out new \<Longrightarrow>
   aborted_at_first_rejection env out (e # new)"
  by (cases out) (auto simp: aborted_at_first_rejection_def)

lemma aborted_single:
  "rejected env e \<Longrightarrow> aborted_at_first_rejection env (Rejected (TelegramError e)) [e]"
  by (cases e) (auto simp: aborted_at_first_rejection_def)

lemma aborted_append:
  "aborted_at_first_rejection env Resolved new1 \<Longrightarrow> Write \<notin> set new1 \<Longrightarrow>
   aborted_at_first_rejection env out new2 \<Longrightarrow>
   aborted_at_first_rejection env out (new1 @ new2)"
  by (cases out) (auto simp: aborted_at_first_rejection_def butlast_append)

lemma aborted_Write:
  "aborted_at_first_rejection env Resolved new \<Longrightarrow>
   aborted_at_first_rejection env Resolved (new @ [Write])"
  by (auto simp: aborted_at_first_rejection_def)

lemma editLoop_shape:
  "\<exists>new. trace (fst (snd (editLoop None env message missing es (c, changes)))) = trace c @ new \<and>
         Write \<notin> set new \<and>
         aborted_at_first_rejection env
           (fst (editLoop None env message missing es (c, changes))) new"
proof (induction es arbitrary: c changes rule: recorded.induct)
  case 1
  show ?case by simp
next
  case (2 k es)
  show ?case using 2[of "console_log (ConsoleError missing) c" changes] by simp
next
  case (3 k m es)
  show ?case
  proof (cases "m = 0")
    case True
    then show ?thesis using 3(1)[of "console_log (ConsoleError missing) c" changes] by simp
  next
    case False
    show ?thesis
    proof (cases "editMessageText env k m message")
      case True
      from 3(2)[OF False, of "await env (EditMessageText k m message) c" True]
      obtain new where new: "trace (fst (snd (editLoop None env message missing es
            (await env (EditMessageText k m message) c, True)))) =
          trace (await env (EditMessageText k m message) c) @ new"
        "Write \<notin> set new"
        "aborted_at_first_rejection env (fst (editLoop None env message missing es
            (await env (EditMessageText k m message) c, True))) new"
        by blast
      have "aborted_at_first_rejection env (fst (editLoop None env message missing es
            (await env (EditMessageText k m message) c, True)))
            (EditMessageText k m message # new)"
        using new(3) True by (intro aborted_Cons) simp_all
      then show ?thesis
        using False True new(1,2)
        by (intro exI[of _ "EditMessageText k m message # new"]) (simp add: Let_def)
    next
      case rej: False
      show ?thesis
        using False rej
        by (intro exI[of _ "[EditMessageText k m message]"])
           (simp add: Let_def aborted_single)
    qed
  qed
qed

lemma sendChannels_shape:
  "\<exists>new. trace (snd (sendChannels None env message ids c)) = trace c @ new \<and>
         Write \<notin> set new \<and>
         aborted_at_first_rejection env (fst (sendChannels None env message ids c)) new"
proof (induction ids arbitrary: c)
  case Nil
  show ?case by simp
next
  case (Cons i ids)
  show ?case
  proof (cases "sendMessage env i message")
    case None
    then show ?thesis
      by (intro exI[of _ "[SendMessage i message]"]) (simp add: Let_def aborted_single)
  next
    case (Some m)
    define c' where "c' = (await env (SendMessage i message) c)
        \<lparr>state := (state (await env (SendMessage i message) c))
           \<lparr>channels := AList.update i (Some m)
              (channels (state (await env (SendMessage i message) c)))\<rparr>\<rparr>"
    from Cons[of c'] obtain new where new:
      "trace (snd (sendChannels None env message ids c')) = trace c' @ new"
      "Write \<notin> set new"
      "aborted_at_first_rejection env (fst (sendChannels None env message ids c')) new"
      by blast
    have "aborted_at_first_rejection env (fst (sendChannels None env message ids c'))
        (SendMessage i message # new)"
      using new(3) Some by (intro aborted_Cons) simp_all
    then show ?thesis
      using Some new(1,2)
      by (intro exI[of _ "SendMessage i message # new"]) (simp add: Let_def c'_def)
  qed
qed

lemma sendGroups_shape:
  "\<exists>new. trace (snd (sendGroups None env message ids c)) = trace c @ new \<and>
         Write \<notin> set new \<and>
         aborted_at_first_rejection env (fst (sendGroups None env message ids c)) new"
proof (induction ids arbitrary: c)
  case Nil
  show ?case by simp
next
  case (Cons g ids)
  show ?case
  proof (cases "sendMessage env g message")
    case None
    then show ?thesis
      by (intro exI[of _ "[SendMessage g message]"]) (simp add: Let_def aborted_single)
  next
    case (Some m)
    define c' where "c' = await env (PinChatMessage g m)
        ((await env (SendMessage g message) c)
        \<lparr>state := (state (await env (SendMessage g message) c))
           \<lparr>groups := AList.update g (Some m)
              (groups (state (await env (SendMessage g message) c)))\<rparr>\<rparr>)"
    have tr: "trace c' = trace c @ [SendMessage g message, PinChatMessage g m]"
      by (simp add: c'_def)
    show ?thesis
    proof (cases "pinChatMessage env g m")
      case False
      have "aborted_at_first_rejection env
          (Rejected (TelegramError (PinChatMessage g m)))
          (SendMessage g message # [PinChatMessage g m])"
        using Some False by (intro aborted_Cons aborted_single) simp_all
      then show ?thesis
        using Some False tr
        by (intro exI[of _ "[SendMessage g message, PinChatMessage g m]"])
           (simp add: Let_def c'_def)
    next
      case True
      from Cons[of c'] obtain new where new:
        "trace (snd (sendGroups None env message ids c')) = trace c' @ new"
        "Write \<notin> set new"
        "aborted_at_first_rejection env (fst (sendGroups None env message ids c')) new"
        by blast
      have "aborted_at_first_rejection env (fst (sendGroups None env message ids c'))
          (SendMessage g message # PinChatMessage g m # new)"
        using new(3) Some True by (intro aborted_Cons) simp_all
      then show ?thesis
        using Some True new(1,2) tr
        by (intro exI[of _ "SendMessage g message # PinChatMessage g m # new"])
           (simp add: Let_def c'_def)
    qed
  qed
qed

lemma handleOnline_shape:
  "\<exists>new. trace (snd (handleOnline None env channelConfig stream c)) = trace c @ new \<and>
         aborted_at_first_rejection env (fst (handleOnline None env channelConfig stream c)) new \<and>
         (fst (handleOnline None env channelConfig stream c) \<noteq> Resolved \<longrightarrow>
            written (snd (handleOnline None env channelConfig stream c)) = written c)"
proof (cases "lastStreamTitle (state c) = Some (title stream)")
  case True
  then show ?thesis by (simp add: handleOnline_duplicate)
next
  case new_title: False
  show ?thesis
  proof (cases "lastStreamId (state c) = Some (id_stream stream)")
    case True
    define c1 where "c1 = c\<lparr>state := (state c)\<lparr>lastStreamTitle := Some (title stream)\<rparr>\<rparr>"
    obtain o1 c2 ch1 where r1: "editLoop None env (formatMessage env stream)
        ''Missing last message id in status! Skip...''
        (Object_entries (channels (state c))) (c1, False) = (o1, c2, ch1)"
      by (metis prod_cases3)
    obtain o2 c3 ch2 where r2: "editLoop None env (formatMessage env stream)
        ''Missing last group message id in status! Skip...''
        (Object_entries (groups (state c))) (c2, ch1) = (o2, c3, ch2)"
      by (metis prod_cases3)
    from editLoop_shape[of env "formatMessage env stream"
        "''Missing last message id in status! Skip...''"
        "Object_entries (channels (state c))" c1 False] r1
    obtain new1 where n1: "trace c2 = trace c @ new1" "Write \<notin> set new1"
      "aborted_at_first_rejection env o1 new1"
      by (auto simp: c1_def)
    from editLoop_shape[of env "formatMessage env stream"
        "''Missing last group message id in status! Skip...''"
        "Object_entries (groups (state c))" c2 ch1] r2
    obtain new2 where n2: "trace c3 = trace c2 @ new2" "Write \<notin> set new2"
      "aborted_at_first_rejection env o2 new2"
      by auto
    have w2: "written c2 = written c" using editLoop_frame[OF r1] by (simp add: c1_def)
    have w3: "written c3 = written c" using editLoop_frame[OF r2] w2 by simp
    note h = handleOnline_edit[OF new_title True r1[unfolded c1_def] r2, of channelConfig]
    show ?thesis
    proof (cases o1)
      case Pending
      then show ?thesis using editLoop_settlesD[OF r1] by simp
    next
      case (Rejected e)
      then show ?thesis using h n1 w2 by (intro exI[of _ new1]) simp
    next
      case res1: Resolved
      have n12: "aborted_at_first_rejection env o2 (new1 @ new2)"
        using aborted_append[OF n1(3)[unfolded res1] n1(2) n2(3)] .
      show ?thesis
      proof (cases o2)
        case Pending
        then show ?thesis using editLoop_settlesD[OF r2] by simp
      next
        case (Rejected e)
        then show ?thesis
          using h res1 n1 n2 n12 w3 by (intro exI[of _ "new1 @ new2"]) simp
      next
        case Resolved
        show ?thesis
        proof (cases ch2)
          case True
          then show ?thesis
            using h res1 Resolved n1 n2 aborted_Write[OF n12[unfolded Resolved]]
            by (intro exI[of _ "(new1 @ new2) @ [Write]"]) simp
        next
          case False
          then show ?thesis
            using h res1 Resolved n1 n2 n12
            by (intro exI[of _ "new1 @ new2"]) simp
        qed
      qed
    qed
  next
    case False
    define c4 where "c4 = c\<lparr>state := (state c)
               \<lparr>lastStreamTitle := Some (title stream),
                lastStreamId := Some (id_stream stream),
                channels :=
                  cleanup (channelIds channelConfig) (forIn_keys (groups (state c)))
                    (cleanup (channelIds channelConfig) (forIn_keys (channels (state c)))
                       (channels (state c)))\<rparr>\<rparr>"
    obtain o1 c5 where r1:
      "sendChannels None env (formatMessage env stream) (channelIds channelConfig) c4 = (o1, c5)"
      by (metis surj_pair)
    obtain o2 c6 where r2:
      "sendGroups None env (formatMessage env stream) (groupIds channelConfig) c5 = (o2, c6)"
      by (metis surj_pair)
    from sendChannels_shape[of env "formatMessage env stream" "channelIds channelConfig" c4] r1
    obtain new1 where n1: "trace c5 = trace c @ new1" "Write \<notin> set new1"
      "aborted_at_first_rejection env o1 new1"
      by (auto simp: c4_def)
    from sendGroups_shape[of env "formatMessage env stream" "groupIds channelConfig" c5] r2
    obtain new2 where n2: "trace c6 = trace c5 @ new2" "Write \<notin> set new2"
      "aborted_at_first_rejection env o2 new2"
      by auto
    have w5: "written c5 = written c" using sendChannels_frameD[OF r1] by (simp add: c4_def)
    have w6: "written c6 = written c" using sendGroups_frameD[OF r2] w5 by simp
    note h = handleOnline_new[OF new_title False r1[unfolded c4_def] r2]
    show ?thesis
    proof (cases o1)
      case Pending
      then show ?thesis using sendChannels_settlesD[OF r1] by simp
    next
      case (Rejected e)
      then show ?thesis using h n1 w5 by (intro exI[of _ new1]) simp
    next
      case res1: Resolved
      have n12: "aborted_at_first_rejection env o2 (new1 @ new2)"
        using aborted_append[OF n1(3)[unfolded res1] n1(2) n2(3)] .
      show ?thesis
      proof (cases o2)
        case Pending
        then show ?thesis using sendGroups_settlesD[OF r2] by simp
      next
        case (Rejected e)
        then show ?thesis
          using h res1 n1 n2 n12 w6 by (intro exI[of _ "new1 @ new2"]) simp
      next
        case Resolved
        then show ?thesis
          using h res1 n1 n2 aborted_Write[OF n12[unfolded Resolved]]
          by (intro exI[of _ "(new1 @ new2) @ [Write]"]) simp
      qed
    qed
  qed
qed

lemma sendGroups_append:
  "sendGroups deadline env message (xs @ ys) c =
     (case sendGroups deadline env message xs c of
        (Resolved, c') \<Rightarrow> sendGroups deadline env message ys c'
      | (out, c') \<Rightarrow> (out, c'))"
  by (induction xs arbitrary: c) (simp_all add: Let_def split: option.splits)

lemma online_cycle_shape:
  assumes bot: "bot_cfg channelConfig \<in> set (bots config)"
    and on: "getStatus env channelName = Online stream"
    and st: "map_of (db w) channelName = Some st"
  shows "\<exists>new. trace (snd (update config env channelName channelConfig w)) = trace w @ new \<and>
           aborted_at_first_rejection env
             (fst (update config env channelName channelConfig w)) new"
    and "fst (update config env channelName channelConfig w) \<noteq> Resolved \<Longrightarrow>
           disk (snd (update config env channelName channelConfig w)) = disk w"
  using handleOnline_shape[of env channelConfig stream
      "enter (w\<lparr>clock := clock w + lookupMs env channelName\<rparr>) st"]
  unfolding update_online[OF bot on st] by auto

lemma group_send_rejected:
  assumes bot: "bot_cfg channelConfig \<in> set (bots config)"
    and on: "getStatus env channelName = Online stream"
    and st: "map_of (db w) channelName = Some st"
    and new_title: "lastStreamTitle st \<noteq> Some (title stream)"
    and new_id: "lastStreamId st \<noteq> Some (id_stream stream)"
    and split: "groupIds channelConfig = done @ g # rest"
    and sends: "\<forall>i \<in> set (channelIds channelConfig @ done).
                  sendMessage env i (formatMessage env stream) \<noteq> None"
    and pins: "\<forall>g' \<in> set done.
                  pinChatMessage env g' (the (sendMessage env g' (formatMessage env stream)))"
    and fail: "sendMessage env g (formatMessage env stream) = None"
  shows "fst (update config env channelName channelConfig w) =
           Rejected (TelegramError (SendMessage g (formatMessage env stream)))"
    and "trace (snd (update config env channelName channelConfig w)) = trace w @
           map (\<lambda>i. SendMessage i (formatMessage env stream)) (channelIds channelConfig) @
           concat (map (\<lambda>g'. [SendMessage g' (formatMessage env stream),
                               PinChatMessage g'
                                 (the (sendMessage env g' (formatMessage env stream)))])
                     done) @
           [SendMessage g (formatMessage env stream)]"
    and "db (snd (update config env channelName channelConfig w)) =
           AList.update channelName
             (notified env (channelConfig\<lparr>groupIds := done\<rparr>) stream st) (db w)"
proof -
  define w0 where "w0 = w\<lparr>clock := clock w + lookupMs env channelName\<rparr>"
  define c0 where "c0 = enter w0 st"
  define message where "message = formatMessage env stream"
  define c4 where "c4 = c0\<lparr>state := (state c0)
               \<lparr>lastStreamTitle := Some (title stream),
                lastStreamId := Some (id_stream stream),
                channels :=
                  cleanup (channelIds channelConfig) (forIn_keys (groups (state c0)))
                    (cleanup (channelIds channelConfig) (forIn_keys (channels (state c0)))
                       (channels (state c0)))\<rparr>\<rparr>"
  define c5 where "c5 = snd (sendChannels None env message (channelIds channelConfig) c4)"
  define c6 where "c6 = snd (sendGroups None env message done c5)"
  define c7 where "c7 = await env (SendMessage g message) c6"
  have ok1: "\<forall>i \<in> set (channelIds channelConfig). sendMessage env i message \<noteq> None"
    and ok2: "\<forall>i \<in> set done. sendMessage env i message \<noteq> None"
    and ok3: "\<forall>g \<in> set done. pinChatMessage env g (the (sendMessage env g message))"
    using sends pins by (simp_all add: message_def)
  note s1 = sendChannels_ok[OF ok1, of c4, folded c5_def]
  note s2 = sendGroups_ok[OF ok2 ok3, of c5, folded c6_def]
  have r1: "sendChannels None env message (channelIds channelConfig) c4 = (Resolved, c5)"
    using s1 by (simp add: c5_def prod_eq_iff)
  have r2': "sendGroups None env message done c5 = (Resolved, c6)"
    using s2 by (simp add: c6_def prod_eq_iff)
  have r2: "sendGroups None env message (groupIds channelConfig) c5 =
      (Rejected (TelegramError (SendMessage g message)), c7)"
    unfolding split sendGroups_append r2'
    using fail by (simp add: Let_def c7_def message_def)
  note f1 = sendChannels_frameD[OF r1]
  note f2 = sendGroups_frameD[OF r2']
  have h: "handleOnline None env channelConfig stream c0 =
      (Rejected (TelegramError (SendMessage g message)), c7)"
    using handleOnline_new[of c0 stream env channelConfig _ c5 _ c7] new_title new_id r1 r2
    by (simp add: c0_def c4_def message_def)
  have upd: "update config env channelName channelConfig w =
      (Rejected (TelegramError (SendMessage g message)), leave channelName w0 c7)"
    unfolding update_online[OF bot on st] using h by (simp add: w0_def c0_def)
  have ch4: "channels (state c4) =
      filter (\<lambda>e. fst e \<in> set (channelIds channelConfig)) (channels st)"
    by (simp add: c4_def c0_def cleanup_own_keys cleanup_again)
  have state: "state c7 = notified env (channelConfig\<lparr>groupIds := done\<rparr>) stream st"
    using s1 s2 f1 f2 ch4
    by (intro ChannelState.equality)
       (simp_all add: notified_def recordSends_def message_def c4_def c0_def c7_def)
  have tr: "trace c7 = trace w @
      map (\<lambda>i. SendMessage i message) (channelIds channelConfig) @
      concat (map (\<lambda>g. [SendMessage g message,
                         PinChatMessage g (the (sendMessage env g message))]) done) @
      [SendMessage g message]"
    using s1 s2 by (simp add: c4_def c0_def w0_def c7_def)
  show "fst (update config env channelName channelConfig w) =
           Rejected (TelegramError (SendMessage g (formatMessage env stream)))"
    unfolding upd by (simp add: message_def)
  show "trace (snd (update config env channelName channelConfig w)) = trace w @
           map (\<lambda>i. SendMessage i (formatMessage env stream)) (channelIds channelConfig) @
           concat (map (\<lambda>g'. [SendMessage g' (formatMessage env stream),
                               PinChatMessage g'
                                 (the (sendMessage env g' (formatMessage env stream)))])
                     done) @
           [SendMessage g (formatMessage env stream)]"
    unfolding upd using tr by (simp add: message_def)
  show "db (snd (update config env channelName channelConfig w)) =
           AList.update channelName
             (notified env (channelConfig\<lparr>groupIds := done\<rparr>) stream st) (db w)"
    unfolding upd using state by (simp add: w0_def)
qed

lemma unpinLoop_lastStreamId:
  "lastStreamId (state (snd (unpinLoop None env es c))) = lastStreamId (state c)"
  by (induction es arbitrary: c rule: recorded.induct) (simp_all add: Let_def)

lemma handleOnline_lastStreamId:
  "lastStreamId (state (snd (handleOnline None env channelConfig stream c))) =
     (if lastStreamTitle (state c) = Some (title stream) then lastStreamId (state c)
      else Some (id_stream stream))"
proof (cases "lastStreamTitle (state c) = Some (title stream)")
  case True
  then show ?thesis by (simp add: handleOnline_duplicate)
next
  case new_title: False
  show ?thesis
  proof (cases "lastStreamId (state c) = Some (id_stream stream)")
    case True
    obtain o1 c2 ch1 where r1: "editLoop None env (formatMessage env stream)
        ''Missing last message id in status! Skip...''
        (Object_entries (channels (state c)))
        (c\<lparr>state := (state c)\<lparr>lastStreamTitle := Some (title stream)\<rparr>\<rparr>, False) = (o1, c2, ch1)"
      by (metis prod_cases3)
    obtain o2 c3 ch2 where r2: "editLoop None env (formatMessage env stream)
        ''Missing last group message id in status! Skip...''
        (Object_entries (groups (state c))) (c2, ch1) = (o2, c3, ch2)"
      by (metis prod_cases3)
    have s2: "state c2 = (state c)\<lparr>lastStreamTitle := Some (title stream)\<rparr>"
      using editLoop_frame[OF r1] by simp
    have s3: "state c3 = state c2" using editLoop_frame[OF r2] by simp
    show ?thesis
      unfolding handleOnline_edit[OF new_title True r1 r2]
      using s2 s3 new_title True editLoop_settlesD[OF r1] editLoop_settlesD[OF r2]
      by (simp split: outcome.splits)
  next
    case False
    obtain o1 c5 where r1: "sendChannels None env (formatMessage env stream) (channelIds channelConfig)
           (c\<lparr>state := (state c)
               \<lparr>lastStreamTitle := Some (title stream),
                lastStreamId := Some (id_stream stream),
                channels :=
                  cleanup (channelIds channelConfig) (forIn_keys (groups (state c)))
                    (cleanup (channelIds channelConfig) (forIn_keys (channels (state c)))
                       (channels (state c)))\<rparr>\<rparr>) = (o1, c5)"
      by (metis surj_pair)
    obtain o2 c6 where r2:
      "sendGroups None env (formatMessage env stream) (groupIds channelConfig) c5 = (o2, c6)"
      by (metis surj_pair)
    have s5: "lastStreamId (state c5) = Some (id_stream stream)"
      using sendChannels_frameD[OF r1] by simp
    have s6: "lastStreamId (state c6) = Some (id_stream stream)"
      using sendGroups_frameD[OF r2] s5 by simp
    show ?thesis
      unfolding handleOnline_new[OF new_title False r1 r2]
      using s5 s6 new_title sendChannels_settlesD[OF r1] sendGroups_settlesD[OF r2]
      by (simp split: outcome.splits)
  qed
qed


lemma updateEach_append:
  "updateEach config env (xs @ ys) w =
     (case updateEach config env xs w of
        (Resolved, w') \<Rightarrow> updateEach config env ys w'
      | (out, w') \<Rightarrow> (out, w'))"
  by (induction xs arbitrary: w) (auto split: prod.splits outcome.splits)

lemma editLoop_calls:
  "\<exists>k \<le> length (recorded es).
      trace (fst (snd (editLoop None env message missing es (c, changes)))) =
        trace c @ take k (map (\<lambda>(chat, m). EditMessageText chat m message) (recorded es)) \<and>
      (fst (editLoop None env message missing es (c, changes)) = Resolved \<longrightarrow>
         k = length (recorded es) \<and>
         snd (snd (editLoop None env message missing es (c, changes))) =
           (changes \<or> recorded es \<noteq> []))"
proof (induction es arbitrary: c changes rule: recorded.induct)
  case 1
  show ?case by simp
next
  case (2 k es)
  show ?case using 2[of "console_log (ConsoleError missing) c" changes] by simp
next
  case (3 k m es)
  show ?case
  proof (cases "m = 0")
    case True
    then show ?thesis using 3(1)[of "console_log (ConsoleError missing) c" changes] by simp
  next
    case False
    show ?thesis
    proof (cases "editMessageText env k m message")
      case True
      from 3(2)[OF False, of "await env (EditMessageText k m message) c" True]
      obtain j where j: "j \<le> length (recorded es)"
        "trace (fst (snd (editLoop None env message missing es
            (await env (EditMessageText k m message) c, True)))) =
          trace (await env (EditMessageText k m message) c) @
          take j (map (\<lambda>(chat, m). EditMessageText chat m message) (recorded es))"
        "fst (editLoop None env message missing es
            (await env (EditMessageText k m message) c, True)) = Resolved \<longrightarrow>
          j = length (recorded es) \<and>
          snd (snd (editLoop None env message missing es
            (await env (EditMessageText k m message) c, True))) = True"
        by auto
      show ?thesis
        using False True j by (intro exI[of _ "Suc j"]) (simp add: Let_def)
    next
      case rej: False
      show ?thesis
        using False rej by (intro exI[of _ "Suc 0"]) (simp add: Let_def)
    qed
  qed
qed

lemma title_change_calls:
  assumes bot: "bot_cfg channelConfig \<in> set (bots config)"
    and on: "getStatus env channelName = Online stream"
    and st: "map_of (db w) channelName = Some st"
    and new_title: "lastStreamTitle st \<noteq> Some (title stream)"
    and same_id: "lastStreamId st = Some (id_stream stream)"
  shows "db (snd (update config env channelName channelConfig w)) =
           AList.update channelName (st\<lparr>lastStreamTitle := Some (title stream)\<rparr>) (db w)"
    and "\<exists>k. trace (snd (update config env channelName channelConfig w)) = trace w @
           take k (map (\<lambda>(chat, m). EditMessageText chat m (formatMessage env stream))
                     (recorded (Object_entries (channels st)) @
                      recorded (Object_entries (groups st))) @ [Write])"
proof -
  define w0 where "w0 = w\<lparr>clock := clock w + lookupMs env channelName\<rparr>"
  define c0 where "c0 = enter w0 st"
  define c1 where "c1 = c0\<lparr>state := (state c0)\<lparr>lastStreamTitle := Some (title stream)\<rparr>\<rparr>"
  define message where "message = formatMessage env stream"
  define E1 where "E1 = map (\<lambda>(chat, m). EditMessageText chat m message)
      (recorded (Object_entries (channels st)))"
  define E2 where "E2 = map (\<lambda>(chat, m). EditMessageText chat m message)
      (recorded (Object_entries (groups st)))"
  obtain o1 c2 ch1 where r1: "editLoop None env message ''Missing last message id in status! Skip...''
      (Object_entries (channels (state c0))) (c1, False) = (o1, c2, ch1)"
    by (metis prod_cases3)
  obtain o2 c3 ch2 where r2: "editLoop None env message
      ''Missing last group message id in status! Skip...''
      (Object_entries (groups (state c0))) (c2, ch1) = (o2, c3, ch2)"
    by (metis prod_cases3)
  from editLoop_calls[of "Object_entries (channels (state c0))" env message
      "''Missing last message id in status! Skip...''" c1 False] r1
  obtain k1 where k1: "k1 \<le> length E1" "trace c2 = trace w @ take k1 E1"
    "o1 = Resolved \<longrightarrow> k1 = length E1 \<and> ch1 = (E1 \<noteq> [])"
    by (auto simp: E1_def c0_def c1_def w0_def)
  from editLoop_calls[of "Object_entries (groups (state c0))" env message
      "''Missing last group message id in status! Skip...''" c2 ch1] r2
  obtain k2 where k2: "k2 \<le> length E2" "trace c3 = trace c2 @ take k2 E2"
    "o2 = Resolved \<longrightarrow> k2 = length E2 \<and> ch2 = (ch1 \<or> E2 \<noteq> [])"
    by (auto simp: E2_def c0_def)
  have s2: "state c2 = st\<lparr>lastStreamTitle := Some (title stream)\<rparr>"
    using editLoop_frame[OF r1] by (simp add: c1_def c0_def)
  have s3: "state c3 = st\<lparr>lastStreamTitle := Some (title stream)\<rparr>"
    using editLoop_frame[OF r2] s2 by simp
  have h: "handleOnline None env channelConfig stream c0 =
      (case o1 of
         Rejected e \<Rightarrow> (Rejected e, c2)
       | Resolved \<Rightarrow>
           (case o2 of
              Rejected e \<Rightarrow> (Rejected e, c3)
            | Resolved \<Rightarrow> (Resolved, if ch2 then statusDb_write env c3 else c3)))"
    using handleOnline_edit[of c0 stream env o1 c2 ch1 o2 c3 ch2 channelConfig]
      new_title same_id r1 r2
    by (simp add: c1_def message_def c0_def)
  have upd: "snd (update config env channelName channelConfig w) =
      leave channelName w0 (snd (handleOnline None env channelConfig stream c0))"
    unfolding update_online[OF bot on st] by (simp add: w0_def c0_def)
  have settled: "o1 \<noteq> Pending" "o2 \<noteq> Pending"
    using editLoop_settlesD[OF r1] editLoop_settlesD[OF r2] by simp_all
  have st': "state (snd (handleOnline None env channelConfig stream c0)) =
      st\<lparr>lastStreamTitle := Some (title stream)\<rparr>"
    unfolding h using s2 s3 settled by (simp split: outcome.splits)
  show "db (snd (update config env channelName channelConfig w)) =
      AList.update channelName (st\<lparr>lastStreamTitle := Some (title stream)\<rparr>) (db w)"
    unfolding upd using st' by (simp add: w0_def)
  have "\<exists>k. trace (snd (handleOnline None env channelConfig stream c0)) =
      trace w @ take k ((E1 @ E2) @ [Write])"
  proof (cases o1)
    case Pending
    then show ?thesis using settled by simp
  next
    case (Rejected e)
    then show ?thesis
      unfolding h using k1 by (intro exI[of _ k1]) simp
  next
    case res1: Resolved
    show ?thesis
    proof (cases o2)
      case Pending
      then show ?thesis using settled by simp
    next
      case (Rejected e)
      then show ?thesis
        unfolding h using res1 k1 k2 by (intro exI[of _ "length E1 + k2"]) simp
    next
      case Resolved
      show ?thesis
      proof (cases ch2)
        case True
        then show ?thesis
          unfolding h using res1 Resolved k1 k2
          by (intro exI[of _ "Suc (length E1 + length E2)"]) simp
      next
        case False
        then show ?thesis
          unfolding h using res1 Resolved k1 k2
          by (intro exI[of _ 0]) simp
      qed
    qed
  qed
  then show "\<exists>k. trace (snd (update config env channelName channelConfig w)) = trace w @
      take k (map (\<lambda>(chat, m). EditMessageText chat m (formatMessage env stream))
                (recorded (Object_entries (channels st)) @
                 recorded (Object_entries (groups st))) @ [Write])"
    unfolding upd by (simp add: E1_def E2_def message_def)
qed



subsection \<open>The first rejected call of a new stream\<close>

lemma sendChannels_append:
  "sendChannels deadline env message (xs @ ys) c =
     (case sendChannels deadline env message xs c of
        (Resolved, c') \<Rightarrow> sendChannels deadline env message ys c'
      | (out, c') \<Rightarrow> (out, c'))"
  by (induction xs arbitrary: c) (simp_all add: Let_def split: option.splits)

lemma channel_send_rejected:
  assumes bot: "bot_cfg channelConfig \<in> set (bots config)"
    and on: "getStatus env channelName = Online stream"
    and st: "map_of (db w) channelName = Some st"
    and new_title: "lastStreamTitle st \<noteq> Some (title stream)"
    and new_id: "lastStreamId st \<noteq> Some (id_stream stream)"
    and split: "channelIds channelConfig = sent @ i # rest"
    and sends: "\<forall>i' \<in> set sent. sendMessage env i' (formatMessage env stream) \<noteq> None"
    and fail: "sendMessage env i (formatMessage env stream) = None"
  shows "fst (update config env channelName channelConfig w) =
           Rejected (TelegramError (SendMessage i (formatMessage env stream)))"
    and "trace (snd (update config env channelName channelConfig w)) = trace w @
           map (\<lambda>i'. SendMessage i' (formatMessage env stream)) sent @
           [SendMessage i (formatMessage env stream)]"
    and "db (snd (update config env channelName channelConfig w)) =
           AList.update channelName
             (st\<lparr>lastStreamTitle := Some (title stream),
                 lastStreamId := Some (id_stream stream),
                 channels := recordSends env (formatMessage env stream) sent
                   (filter (\<lambda>e. fst e \<in> set (channelIds channelConfig)) (channels st))\<rparr>)
             (db w)"
proof -
  define w0 where "w0 = w\<lparr>clock := clock w + lookupMs env channelName\<rparr>"
  define c0 where "c0 = enter w0 st"
  define message where "message = formatMessage env stream"
  define c4 where "c4 = c0\<lparr>state := (state c0)
               \<lparr>lastStreamTitle := Some (title stream),
                lastStreamId := Some (id_stream stream),
                channels :=
                  cleanup (channelIds channelConfig) (forIn_keys (groups (state c0)))
                    (cleanup (channelIds channelConfig) (forIn_keys (channels (state c0)))
                       (channels (state c0)))\<rparr>\<rparr>"
  define c5 where "c5 = snd (sendChannels None env message sent c4)"
  define c6 where "c6 = await env (SendMessage i message) c5"
  have ok1: "\<forall>i \<in> set sent. sendMessage env i message \<noteq> None"
    using sends by (simp add: message_def)
  note s1 = sendChannels_ok[OF ok1, of c4, folded c5_def]
  have r1': "sendChannels None env message sent c4 = (Resolved, c5)"
    using s1 by (simp add: c5_def prod_eq_iff)
  have r1: "sendChannels None env message (channelIds channelConfig) c4 =
      (Rejected (TelegramError (SendMessage i message)), c6)"
    unfolding split sendChannels_append r1'
    using fail by (simp add: Let_def c6_def message_def)
  note f1 = sendChannels_frameD[OF r1']
  obtain o2 c7 where r2: "sendGroups None env message (groupIds channelConfig) c6 = (o2, c7)"
    by fastforce
  have h: "handleOnline None env channelConfig stream c0 =
      (Rejected (TelegramError (SendMessage i message)), c6)"
    using handleOnline_new[of c0 stream env channelConfig _ c6 o2 c7] new_title new_id r1 r2
    by (simp add: c0_def c4_def message_def)
  have upd: "update config env channelName channelConfig w =
      (Rejected (TelegramError (SendMessage i message)), leave channelName w0 c6)"
    unfolding update_online[OF bot on st] using h by (simp add: w0_def c0_def)
  have ch4: "channels (state c4) =
      filter (\<lambda>e. fst e \<in> set (channelIds channelConfig)) (channels st)"
    by (simp add: c4_def c0_def cleanup_own_keys cleanup_again)
  have state: "state c6 = st\<lparr>lastStreamTitle := Some (title stream),
                 lastStreamId := Some (id_stream stream),
                 channels := recordSends env message sent
                   (filter (\<lambda>e. fst e \<in> set (channelIds channelConfig)) (channels st))\<rparr>"
    using s1 f1 ch4
    by (intro ChannelState.equality)
       (simp_all add: recordSends_def message_def c4_def c0_def c6_def)
  have tr: "trace c6 = trace w @ map (\<lambda>i. SendMessage i message) sent @ [SendMessage i message]"
    using s1 by (simp add: c4_def c0_def w0_def c6_def)
  show "fst (update config env channelName channelConfig w) =
           Rejected (TelegramError (SendMessage i (formatMessage env stream)))"
    unfolding upd by (simp add: message_def)
  show "trace (snd (update config env channelName channelConfig w)) = trace w @
           map (\<lambda>i'. SendMessage i' (formatMessage env stream)) sent @
           [SendMessage i (formatMessage env stream)]"
    unfolding upd using tr by (simp add: message_def)
  show "db (snd (update config env channelName channelConfig w)) =
           AList.update channelName
             (st\<lparr>lastStreamTitle := Some (title stream),
                 lastStreamId := Some (id_stream stream),
                 channels := recordSends env (formatMessage env stream) sent
                   (filter (\<lambda>e. fst e \<in> set (channelIds channelConfig)) (channels st))\<rparr>)
             (db w)"
    unfolding upd using state by (simp add: w0_def message_def)
qed

lemma pin_rejected:
  assumes bot: "bot_cfg channelConfig \<in> set (bots config)"
    and on: "getStatus env channelName = Online stream"
    and st: "map_of (db w) channelName = Some st"
    and new_title: "lastStreamTitle st \<noteq> Some (title stream)"
    and new_id: "lastStreamId st \<noteq> Some (id_stream stream)"
    and split: "groupIds channelConfig = done @ g # rest"
    and sends: "\<forall>i \<in> set (channelIds channelConfig @ done).
                  sendMessage env i (formatMessage env stream) \<noteq> None"
    and pins: "\<forall>g' \<in> set done.
                  pinChatMessage env g' (the (sendMessage env g' (formatMessage env stream)))"
    and sent: "sendMessage env g (formatMessage env stream) = Some m"
    and fail: "\<not> pinChatMessage env g m"
  shows "fst (update config env channelName channelConfig w) =
           Rejected (TelegramError (PinChatMessage g m))"
    and "trace (snd (update config env channelName channelConfig w)) = trace w @
           map (\<lambda>i. SendMessage i (formatMessage env stream)) (channelIds channelConfig) @
           concat (map (\<lambda>g'. [SendMessage g' (formatMessage env stream),
                               PinChatMessage g'
                                 (the (sendMessage env g' (formatMessage env stream)))])
                     done) @
           [SendMessage g (formatMessage env stream), PinChatMessage g m]"
    and "db (snd (update config env channelName channelConfig w)) =
           AList.update channelName
             (notified env (channelConfig\<lparr>groupIds := done @ [g]\<rparr>) stream st) (db w)"
proof -
  define w0 where "w0 = w\<lparr>clock := clock w + lookupMs env channelName\<rparr>"
  define c0 where "c0 = enter w0 st"
  define message where "message = formatMessage env stream"
  define c4 where "c4 = c0\<lparr>state := (state c0)
               \<lparr>lastStreamTitle := Some (title stream),
                lastStreamId := Some (id_stream stream),
                channels :=
                  cleanup (channelIds channelConfig) (forIn_keys (groups (state c0)))
                    (cleanup (channelIds channelConfig) (forIn_keys (channels (state c0)))
                       (channels (state c0)))\<rparr>\<rparr>"
  define c5 where "c5 = snd (sendChannels None env message (channelIds channelConfig) c4)"
  define c6 where "c6 = snd (sendGroups None env message done c5)"
  define c7 where "c7 = await env (PinChatMessage g m)
      ((await env (SendMessage g message) c6)
         \<lparr>state := (state (await env (SendMessage g message) c6))
            \<lparr>groups := AList.update g (Some m)
               (groups (state (await env (SendMessage g message) c6)))\<rparr>\<rparr>)"
  have ok1: "\<forall>i \<in> set (channelIds channelConfig). sendMessage env i message \<noteq> None"
    and ok2: "\<forall>i \<in> set done. sendMessage env i message \<noteq> None"
    and ok3: "\<forall>g \<in> set done. pinChatMessage env g (the (sendMessage env g message))"
    using sends pins by (simp_all add: message_def)
  note s1 = sendChannels_ok[OF ok1, of c4, folded c5_def]
  note s2 = sendGroups_ok[OF ok2 ok3, of c5, folded c6_def]
  have r1: "sendChannels None env message (channelIds channelConfig) c4 = (Resolved, c5)"
    using s1 by (simp add: c5_def prod_eq_iff)
  have r2': "sendGroups None env message done c5 = (Resolved, c6)"
    using s2 by (simp add: c6_def prod_eq_iff)
  have r2: "sendGroups None env message (groupIds channelConfig) c5 =
      (Rejected (TelegramError (PinChatMessage g m)), c7)"
    unfolding split sendGroups_append r2'
    using sent fail by (simp add: Let_def c7_def message_def)
  note f1 = sendChannels_frameD[OF r1]
  note f2 = sendGroups_frameD[OF r2']
  have h: "handleOnline None env channelConfig stream c0 =
      (Rejected (TelegramError (PinChatMessage g m)), c7)"
    using handleOnline_new[of c0 stream env channelConfig _ c5 _ c7] new_title new_id r1 r2
    by (simp add: c0_def c4_def message_def)
  have upd: "update config env channelName channelConfig w =
      (Rejected (TelegramError (PinChatMessage g m)), leave channelName w0 c7)"
    unfolding update_online[OF bot on st] using h by (simp add: w0_def c0_def)
  have ch4: "channels (state c4) =
      filter (\<lambda>e. fst e \<in> set (channelIds channelConfig)) (channels st)"
    by (simp add: c4_def c0_def cleanup_own_keys cleanup_again)
  have state: "state c7 = notified env (channelConfig\<lparr>groupIds := done @ [g]\<rparr>) stream st"
    using s1 s2 f1 f2 ch4 sent
    by (intro ChannelState.equality)
       (simp_all add: notified_def recordSends_def message_def c4_def c0_def c7_def)
  have tr: "trace c7 = trace w @
      map (\<lambda>i. SendMessage i message) (channelIds channelConfig) @
      concat (map (\<lambda>g. [SendMessage g message,
                         PinChatMessage g (the (sendMessage env g message))]) done) @
      [SendMessage g message, PinChatMessage g m]"
    using s1 s2 by (simp add: c4_def c0_def w0_def c7_def)
  show "fst (update config env channelName channelConfig w) =
           Rejected (TelegramError (PinChatMessage g m))"
    unfolding upd by simp
  show "trace (snd (update config env channelName channelConfig w)) = trace w @
           map (\<lambda>i. SendMessage i (formatMessage env stream)) (channelIds channelConfig) @
           concat (map (\<lambda>g'. [SendMessage g' (formatMessage env stream),
                               PinChatMessage g'
                                 (the (sendMessage env g' (formatMessage env stream)))])
                     done) @
           [SendMessage g (formatMessage env stream), PinChatMessage g m]"
    unfolding upd using tr by (simp add: message_def)
  show "db (snd (update config env channelName channelConfig w)) =
           AList.update channelName
             (notified env (channelConfig\<lparr>groupIds := done @ [g]\<rparr>) stream st) (db w)"
    unfolding upd using state by (simp add: w0_def)
qed

subsection \<open>Runs looked at up to a deadline\<close>

lemma sendChannels_mono: "clock c \<le> clock (snd (sendChannels None env message ids c))"
proof (induction ids arbitrary: c)
  case Nil
  show ?case by simp
next
  case (Cons i ids)
  show ?case
  proof (cases "sendMessage env i message")
    case None
    then show ?thesis by (simp add: Let_def)
  next
    case (Some m)
    show ?thesis
      using Some Cons[of "(await env (SendMessage i message) c)
        \<lparr>state := (state (await env (SendMessage i message) c))
           \<lparr>channels := AList.update i (Some m)
              (channels (state (await env (SendMessage i message) c)))\<rparr>\<rparr>"]
      by (simp add: Let_def)
  qed
qed

lemma sendChannels_deadline:
  "clock c \<le> d \<Longrightarrow>
   (clock (snd (sendChannels None env message ids c)) \<le> d \<longrightarrow>
      sendChannels (Some d) env message ids c = sendChannels None env message ids c) \<and>
   (d < clock (snd (sendChannels None env message ids c)) \<longrightarrow>
      fst (sendChannels (Some d) env message ids c) = Pending \<and>
      clock (snd (sendChannels (Some d) env message ids c)) = d)"
proof (induction ids arbitrary: c)
  case Nil
  then show ?case by simp
next
  case (Cons i ids)
  show ?case
  proof (cases "sendMessage env i message")
    case None
    then show ?thesis using Cons.prems by (auto simp: Let_def answered_def)
  next
    case (Some m)
    define c' where "c' = (await env (SendMessage i message) c)
        \<lparr>state := (state (await env (SendMessage i message) c))
           \<lparr>channels := AList.update i (Some m)
              (channels (state (await env (SendMessage i message) c)))\<rparr>\<rparr>"
    have clk: "clock c' = clock c + latencyMs env (SendMessage i message)"
      by (simp add: c'_def)
    have none: "sendChannels None env message (i # ids) c = sendChannels None env message ids c'"
      using Some by (simp add: Let_def c'_def)
    show ?thesis
    proof (cases "clock c' \<le> d")
      case True
      have "sendChannels (Some d) env message (i # ids) c =
          sendChannels (Some d) env message ids c'"
        using Some True clk by (simp add: Let_def c'_def answered_def)
      then show ?thesis using Cons.IH[OF True] none by simp
    next
      case False
      have "sendChannels (Some d) env message (i # ids) c =
          (Pending, unanswered (Some d) (SendMessage i message) c)"
        using False clk by (simp add: answered_def)
      moreover have "d < clock (snd (sendChannels None env message (i # ids) c))"
        using False sendChannels_mono[of c' env message ids] none by simp
      ultimately show ?thesis by simp
    qed
  qed
qed


lemma sendGroups_mono: "clock c \<le> clock (snd (sendGroups None env message ids c))"
proof (induction ids arbitrary: c)
  case Nil
  show ?case by simp
next
  case (Cons g ids)
  show ?case
  proof (cases "sendMessage env g message")
    case None
    then show ?thesis by (simp add: Let_def)
  next
    case (Some m)
    show ?thesis
      using Some Cons[of "await env (PinChatMessage g m)
        ((await env (SendMessage g message) c)
        \<lparr>state := (state (await env (SendMessage g message) c))
           \<lparr>groups := AList.update g (Some m)
              (groups (state (await env (SendMessage g message) c)))\<rparr>\<rparr>)"]
      by (simp add: Let_def)
  qed
qed

lemma sendGroups_deadline:
  "clock c \<le> d \<Longrightarrow>
   (clock (snd (sendGroups None env message ids c)) \<le> d \<longrightarrow>
      sendGroups (Some d) env message ids c = sendGroups None env message ids c) \<and>
   (d < clock (snd (sendGroups None env message ids c)) \<longrightarrow>
      fst (sendGroups (Some d) env message ids c) = Pending \<and>
      clock (snd (sendGroups (Some d) env message ids c)) = d)"
proof (induction ids arbitrary: c)
  case Nil
  then show ?case by simp
next
  case (Cons g ids)
  show ?case
  proof (cases "sendMessage env g message")
    case None
    then show ?thesis using Cons.prems by (auto simp: Let_def answered_def)
  next
    case (Some m)
    define c2 where "c2 = (await env (SendMessage g message) c)
        \<lparr>state := (state (await env (SendMessage g message) c))
           \<lparr>groups := AList.update g (Some m)
              (groups (state (await env (SendMessage g message) c)))\<rparr>\<rparr>"
    define c3 where "c3 = await env (PinChatMessage g m) c2"
    have clk2: "clock c2 = clock c + latencyMs env (SendMessage g message)"
      by (simp add: c2_def)
    have clk3: "clock c3 = clock c2 + latencyMs env (PinChatMessage g m)"
      by (simp add: c3_def)
    have none: "sendGroups None env message (g # ids) c =
        (if pinChatMessage env g m then sendGroups None env message ids c3
         else (Rejected (TelegramError (PinChatMessage g m)), c3))"
      using Some by (simp add: Let_def c2_def c3_def)
    have late: "clock c3 \<le> clock (snd (sendGroups None env message (g # ids) c))"
      unfolding none using sendGroups_mono[of c3 env message ids] by simp
    show ?thesis
    proof (cases "clock c2 \<le> d")
      case False
      have "sendGroups (Some d) env message (g # ids) c =
          (Pending, unanswered (Some d) (SendMessage g message) c)"
        using False clk2 by (simp add: answered_def)
      moreover have "d < clock (snd (sendGroups None env message (g # ids) c))"
        using False late clk3 by simp
      ultimately show ?thesis by simp
    next
      case sent: True
      show ?thesis
      proof (cases "clock c3 \<le> d")
        case False
        have "sendGroups (Some d) env message (g # ids) c =
            (Pending, unanswered (Some d) (PinChatMessage g m) c2)"
          using Some sent False clk2 clk3 by (simp add: Let_def answered_def c2_def)
        moreover have "d < clock (snd (sendGroups None env message (g # ids) c))"
          using False late by simp
        ultimately show ?thesis by simp
      next
        case True
        have some: "sendGroups (Some d) env message (g # ids) c =
            (if pinChatMessage env g m then sendGroups (Some d) env message ids c3
             else (Rejected (TelegramError (PinChatMessage g m)), c3))"
          using Some sent True clk2 clk3
          by (simp add: Let_def answered_def c2_def c3_def)
        show ?thesis
          unfolding some none using Cons.IH[OF True] True by simp
      qed
    qed
  qed
qed

lemma editLoop_mono:
  "clock c \<le> clock (fst (snd (editLoop None env message missing es (c, changes))))"
proof (induction es arbitrary: c changes rule: recorded.induct)
  case 1
  show ?case by simp
next
  case (2 k es)
  show ?case using 2[of "console_log (ConsoleError missing) c" changes] by simp
next
  case (3 k m es)
  show ?case
  proof (cases "m = 0")
    case True
    then show ?thesis using 3(1)[of "console_log (ConsoleError missing) c" changes] by simp
  next
    case False
    then show ?thesis
      using 3(2)[OF False, of "await env (EditMessageText k m message) c" True]
      by (simp add: Let_def)
  qed
qed

lemma editLoop_deadline:
  "clock c \<le> d \<Longrightarrow>
   (clock (fst (snd (editLoop None env message missing es (c, changes)))) \<le> d \<longrightarrow>
      editLoop (Some d) env message missing es (c, changes) =
        editLoop None env message missing es (c, changes)) \<and>
   (d < clock (fst (snd (editLoop None env message missing es (c, changes)))) \<longrightarrow>
      fst (editLoop (Some d) env message missing es (c, changes)) = Pending \<and>
      clock (fst (snd (editLoop (Some d) env message missing es (c, changes)))) = d)"
proof (induction es arbitrary: c changes rule: recorded.induct)
  case 1
  then show ?case by simp
next
  case (2 k es)
  show ?case using 2(1)[of "console_log (ConsoleError missing) c" changes] 2(2) by simp
next
  case (3 k m es)
  show ?case
  proof (cases "m = 0")
    case True
    then show ?thesis
      using 3(1)[OF True, of "console_log (ConsoleError missing) c" changes] 3(3) by simp
  next
    case False
    define c1 where "c1 = await env (EditMessageText k m message) c"
    have clk: "clock c1 = clock c + latencyMs env (EditMessageText k m message)"
      by (simp add: c1_def)
    have none: "editLoop None env message missing ((k, Some m) # es) (c, changes) =
        (if editMessageText env k m message then editLoop None env message missing es (c1, True)
         else (Rejected (TelegramError (EditMessageText k m message)), c1, changes))"
      using False by (simp add: Let_def c1_def)
    have late: "clock c1 \<le>
        clock (fst (snd (editLoop None env message missing ((k, Some m) # es) (c, changes))))"
      unfolding none using editLoop_mono[of c1 env message missing es True] by simp
    show ?thesis
    proof (cases "clock c1 \<le> d")
      case nope: False
      have "editLoop (Some d) env message missing ((k, Some m) # es) (c, changes) =
          (Pending, unanswered (Some d) (EditMessageText k m message) c, changes)"
        using False nope clk by (simp add: answered_def)
      moreover have "d <
          clock (fst (snd (editLoop None env message missing ((k, Some m) # es) (c, changes))))"
        using nope late by simp
      ultimately show ?thesis by simp
    next
      case True
      have some: "editLoop (Some d) env message missing ((k, Some m) # es) (c, changes) =
          (if editMessageText env k m message
           then editLoop (Some d) env message missing es (c1, True)
           else (Rejected (TelegramError (EditMessageText k m message)), c1, changes))"
        using False True clk by (simp add: Let_def answered_def c1_def)
      show ?thesis
        unfolding some none using 3(2)[OF False True, of True] True by simp
    qed
  qed
qed

lemma unpinLoop_mono: "clock c \<le> clock (snd (unpinLoop None env es c))"
proof (induction es arbitrary: c rule: recorded.induct)
  case 1
  show ?case by simp
next
  case (2 k es)
  show ?case using 2[of c] by simp
next
  case (3 k m es)
  show ?case
  proof (cases "m = 0")
    case True
    then show ?thesis using 3(1)[of c] by simp
  next
    case False
    define c3 where "c3 =
        (if unpinChatMessage env k m then await env (UnpinChatMessage k m) c
         else console_log (ConsoleWarn ''Unable to unpin message'')
                (await env (UnpinChatMessage k m) c))
        \<lparr>state := (state c)\<lparr>groups := AList.update k None (groups (state c))\<rparr>\<rparr>"
    have "unpinLoop None env ((k, Some m) # es) c = unpinLoop None env es (statusDb_write env c3)"
      using False by (simp add: Let_def c3_def)
    moreover have "clock c \<le> clock (statusDb_write env c3)" by (simp add: c3_def)
    ultimately show ?thesis
      using 3(2)[OF False, of "statusDb_write env c3"] by simp
  qed
qed

lemma unpinLoop_deadline:
  "clock c \<le> d \<Longrightarrow>
   (clock (snd (unpinLoop None env es c)) \<le> d \<longrightarrow>
      unpinLoop (Some d) env es c = unpinLoop None env es c) \<and>
   (d < clock (snd (unpinLoop None env es c)) \<longrightarrow>
      fst (unpinLoop (Some d) env es c) = Pending \<and>
      clock (snd (unpinLoop (Some d) env es c)) = d)"
proof (induction es arbitrary: c rule: recorded.induct)
  case 1
  then show ?case by simp
next
  case (2 k es)
  show ?case using 2(1)[of c] 2(2) by simp
next
  case (3 k m es)
  show ?case
  proof (cases "m = 0")
    case True
    then show ?thesis using 3(1)[OF True, of c] 3(3) by simp
  next
    case False
    define c3 where "c3 =
        (if unpinChatMessage env k m then await env (UnpinChatMessage k m) c
         else console_log (ConsoleWarn ''Unable to unpin message'')
                (await env (UnpinChatMessage k m) c))
        \<lparr>state := (state c)\<lparr>groups := AList.update k None (groups (state c))\<rparr>\<rparr>"
    define c4 where "c4 = statusDb_write env c3"
    have clk3: "clock c3 = clock c + latencyMs env (UnpinChatMessage k m)"
      by (simp add: c3_def)
    have clk4: "clock c4 = clock c3 + latencyMs env Write"
      by (simp add: c4_def)
    have none: "unpinLoop None env ((k, Some m) # es) c = unpinLoop None env es c4"
      using False by (simp add: Let_def c3_def c4_def)
    have late: "clock c4 \<le> clock (snd (unpinLoop None env ((k, Some m) # es) c))"
      unfolding none using unpinLoop_mono[of c4 env es] by simp
    show ?thesis
    proof (cases "clock c3 \<le> d")
      case nope: False
      have "unpinLoop (Some d) env ((k, Some m) # es) c =
          (Pending, unanswered (Some d) (UnpinChatMessage k m) c)"
        using False nope clk3 by (simp add: answered_def)
      moreover have "d < clock (snd (unpinLoop None env ((k, Some m) # es) c))"
        using nope late clk4 by simp
      ultimately show ?thesis by simp
    next
      case unpinned: True
      show ?thesis
      proof (cases "clock c4 \<le> d")
        case nope: False
        have "unpinLoop (Some d) env ((k, Some m) # es) c =
            (Pending, unanswered (Some d) Write c3)"
          using False unpinned nope clk3 clk4
          by (simp add: Let_def answered_def c3_def)
        moreover have "d < clock (snd (unpinLoop None env ((k, Some m) # es) c))"
          using nope late by simp
        ultimately show ?thesis by simp
      next
        case True
        have some: "unpinLoop (Some d) env ((k, Some m) # es) c =
            unpinLoop (Some d) env es c4"
          using False unpinned True clk3 clk4
          by (simp add: Let_def answered_def c3_def c4_def)
        show ?thesis
          unfolding some none using 3(2)[OF False True] by simp
      qed
    qed
  qed
qed


lemma awaitWrite_deadline:
  "clock c \<le> d \<Longrightarrow>
   (clock (statusDb_write env c) \<le> d \<longrightarrow>
      awaitWrite (Some d) env c = (Resolved, statusDb_write env c)) \<and>
   (d < clock (statusDb_write env c) \<longrightarrow>
      fst (awaitWrite (Some d) env c) = Pending \<and>
      clock (snd (awaitWrite (Some d) env c)) = d)"
  by (auto simp: awaitWrite_def answered_def)

lemma handleOnline_mono:
  "clock c \<le> clock (snd (handleOnline None env channelConfig stream c))"
proof -
  have e: "clock c \<le> clock (fst (snd (editLoop None env message missing es
              (c\<lparr>state := s\<rparr>, changes))))" for message missing es s changes
    using editLoop_mono[of "c\<lparr>state := s\<rparr>" env message missing es changes] by simp
  have e2: "clock c' \<le> clock (fst (snd (editLoop None env message missing es (c', changes))))"
    for c' message missing es changes
    by (rule editLoop_mono)
  have sc: "clock c \<le> clock (snd (sendChannels None env message ids (c\<lparr>state := s\<rparr>)))"
    for message ids s
    using sendChannels_mono[of "c\<lparr>state := s\<rparr>" env message ids] by simp
  have sg: "clock c' \<le> clock (snd (sendGroups None env message ids c'))" for message ids c'
    by (rule sendGroups_mono)
  show ?thesis
  proof (cases "lastStreamTitle (state c) = Some (title stream)")
    case True
    then show ?thesis by (simp add: handleOnline_def)
  next
    case False
    show ?thesis
    proof (cases "lastStreamId (state c) = Some (id_stream stream)")
      case True
      obtain o1 c2 ch1 where 1: "editLoop None env (formatMessage env stream)
           ''Missing last message id in status! Skip...''
           (Object_entries (channels (state c)))
           (c\<lparr>state := (state c)\<lparr>lastStreamTitle := Some (title stream)\<rparr>\<rparr>, False)
         = (o1, c2, ch1)" by (metis prod_cases3)
      obtain o2 c3 ch2 where 2: "editLoop None env (formatMessage env stream)
           ''Missing last group message id in status! Skip...''
           (Object_entries (groups (state c))) (c2, ch1)
         = (o2, c3, ch2)" by (metis prod_cases3)
      have "clock c \<le> clock c2" using e[of "formatMessage env stream"
           "''Missing last message id in status! Skip...''"
           "Object_entries (channels (state c))"
           "(state c)\<lparr>lastStreamTitle := Some (title stream)\<rparr>" False] 1 by simp
      moreover have "clock c2 \<le> clock c3" using e2[of c2 "formatMessage env stream"
           "''Missing last group message id in status! Skip...''"
           "Object_entries (groups (state c))" ch1] 2 by simp
      ultimately show ?thesis
        unfolding handleOnline_edit[OF False True 1 2]
        using editLoop_settlesD[OF 1] editLoop_settlesD[OF 2]
        by (simp split: outcome.splits)
    next
      case new: False
      obtain o1 c5 where 1: "sendChannels None env (formatMessage env stream)
           (channelIds channelConfig)
           (c\<lparr>state := (state c)
              \<lparr>lastStreamTitle := Some (title stream),
                lastStreamId := Some (id_stream stream),
                channels := cleanup (channelIds channelConfig)
                  (forIn_keys (groups (state c)))
                  (cleanup (channelIds channelConfig)
                     (forIn_keys (channels (state c))) (channels (state c)))\<rparr>\<rparr>)
         = (o1, c5)" by fastforce
      obtain o2 c6 where 2: "sendGroups None env (formatMessage env stream)
           (groupIds channelConfig) c5 = (o2, c6)" by fastforce
      have "clock c \<le> clock c5" using sc[of "formatMessage env stream"
           "channelIds channelConfig"] 1 by (metis snd_conv)
      moreover have "clock c5 \<le> clock c6" using sg[of c5 "formatMessage env stream"
           "groupIds channelConfig"] 2 by simp
      ultimately show ?thesis
        unfolding handleOnline_new[OF False new 1 2]
        using sendChannels_settlesD[OF 1] sendGroups_settlesD[OF 2]
        by (simp split: outcome.splits)
    qed
  qed
qed


lemma handleOnline_deadline:
  assumes "clock c \<le> d"
  shows "(clock (snd (handleOnline None env channelConfig stream c)) \<le> d \<longrightarrow>
      handleOnline (Some d) env channelConfig stream c =
        handleOnline None env channelConfig stream c) \<and>
   (d < clock (snd (handleOnline None env channelConfig stream c)) \<longrightarrow>
      fst (handleOnline (Some d) env channelConfig stream c) = Pending \<and>
      clock (snd (handleOnline (Some d) env channelConfig stream c)) = d)"
proof (cases "lastStreamTitle (state c) = Some (title stream)")
  case True
  then show ?thesis using assms by (simp add: handleOnline_def)
next
  case False
  define message where "message = formatMessage env stream"
  define c1 where "c1 = c\<lparr>state := (state c)\<lparr>lastStreamTitle := Some (title stream)\<rparr>\<rparr>"
  have clk1: "clock c1 \<le> d" using assms by (simp add: c1_def)
  show ?thesis
  proof (cases "lastStreamId (state c) = Some (id_stream stream)")
    case True
    obtain o1 c2 ch1 where 1: "editLoop None env message
         ''Missing last message id in status! Skip...''
         (Object_entries (channels (state c))) (c1, False) = (o1, c2, ch1)"
      by (metis prod_cases3)
    obtain o2 c3 ch2 where 2: "editLoop None env message
         ''Missing last group message id in status! Skip...''
         (Object_entries (groups (state c))) (c2, ch1) = (o2, c3, ch2)"
      by (metis prod_cases3)
    note none = handleOnline_edit[OF False True 1[unfolded message_def c1_def]
                  2[unfolded message_def]]
    have st2: "state c2 = state c1" using editLoop_frame[OF 1] by simp
    have settle: "o1 \<noteq> Pending" "o2 \<noteq> Pending"
      using editLoop_settlesD[OF 1] editLoop_settlesD[OF 2] by simp_all
    have m1: "clock c1 \<le> clock c2"
      using editLoop_mono[of c1 env message "''Missing last message id in status! Skip...''"
              "Object_entries (channels (state c))" False] 1 by simp
    have m2: "clock c2 \<le> clock c3"
      using editLoop_mono[of c2 env message
              "''Missing last group message id in status! Skip...''"
              "Object_entries (groups (state c))" ch1] 2 by simp
    have some: "handleOnline (Some d) env channelConfig stream c =
        (case editLoop (Some d) env message ''Missing last message id in status! Skip...''
                (Object_entries (channels (state c))) (c1, False) of
           (Rejected e, c2, changes) \<Rightarrow> (Rejected e, c2)
         | (Pending, c2, changes) \<Rightarrow> (Pending, c2)
         | (Resolved, c2, changes) \<Rightarrow>
             (case editLoop (Some d) env message
                     ''Missing last group message id in status! Skip...''
                     (Object_entries (groups (state c2))) (c2, changes) of
                (Rejected e, c3, changes') \<Rightarrow> (Rejected e, c3)
              | (Pending, c3, changes') \<Rightarrow> (Pending, c3)
              | (Resolved, c3, changes') \<Rightarrow>
                  (if changes' then awaitWrite (Some d) env c3 else (Resolved, c3))))"
      unfolding message_def c1_def using False True by (simp add: handleOnline_def Let_def)
    note E1 = editLoop_deadline[OF clk1, of env message
        "''Missing last message id in status! Skip...''"
        "Object_entries (channels (state c))" False, unfolded 1, simplified]
    show ?thesis
    proof (cases "clock c2 \<le> d")
      case late: False
      obtain c2' ch' where p: "editLoop (Some d) env message
           ''Missing last message id in status! Skip...''
           (Object_entries (channels (state c))) (c1, False) = (Pending, c2', ch')"
          and "clock c2' = d"
        using E1 late by (metis fst_conv snd_conv prod_cases3 not_le)
      moreover have "d < clock (snd (handleOnline None env channelConfig stream c))"
        unfolding none using late m2 settle by (simp split: outcome.splits)
      ultimately show ?thesis unfolding some by simp
    next
      case t1: True
      have s1: "editLoop (Some d) env message
           ''Missing last message id in status! Skip...''
           (Object_entries (channels (state c))) (c1, False) = (o1, c2, ch1)"
        using E1 t1 by simp
      show ?thesis
      proof (cases o1)
        case Pending
        then show ?thesis using settle by simp
      next
        case (Rejected e)
        then show ?thesis unfolding some none s1 using t1 by simp
      next
        case Resolved
        have g: "groups (state c2) = groups (state c)" using st2 by (simp add: c1_def)
        note E2 = editLoop_deadline[OF t1, of env message
            "''Missing last group message id in status! Skip...''"
            "Object_entries (groups (state c))" ch1, unfolded 2, simplified]
        show ?thesis
        proof (cases "clock c3 \<le> d")
          case late: False
          obtain c3' ch' where p: "editLoop (Some d) env message
               ''Missing last group message id in status! Skip...''
               (Object_entries (groups (state c))) (c2, ch1) = (Pending, c3', ch')"
              and "clock c3' = d"
            using E2 late by (metis fst_conv snd_conv prod_cases3 not_le)
          moreover have "d < clock (snd (handleOnline None env channelConfig stream c))"
            unfolding none using late settle Resolved by (simp split: outcome.splits)
          ultimately show ?thesis unfolding some s1 using Resolved g by simp
        next
          case t2: True
          have s2: "editLoop (Some d) env message
               ''Missing last group message id in status! Skip...''
               (Object_entries (groups (state c))) (c2, ch1) = (o2, c3, ch2)"
            using E2 t2 by simp
          show ?thesis
            unfolding some none s1 using Resolved g s2 settle t2
              awaitWrite_deadline[OF t2, of env]
            by (auto split: outcome.splits)
        qed
      qed
    qed
  next
    case new: False
    define c4 where "c4 = c\<lparr>state := (state c)
              \<lparr>lastStreamTitle := Some (title stream),
                lastStreamId := Some (id_stream stream),
                channels := cleanup (channelIds channelConfig)
                  (forIn_keys (groups (state c)))
                  (cleanup (channelIds channelConfig)
                     (forIn_keys (channels (state c))) (channels (state c)))\<rparr>\<rparr>"
    have clk4: "clock c4 \<le> d" using assms by (simp add: c4_def)
    obtain o1 c5 where 1: "sendChannels None env message (channelIds channelConfig) c4
         = (o1, c5)" by fastforce
    obtain o2 c6 where 2: "sendGroups None env message (groupIds channelConfig) c5 = (o2, c6)"
      by fastforce
    note none = handleOnline_new[OF False new 1[unfolded message_def c4_def]
                  2[unfolded message_def]]
    have settle: "o1 \<noteq> Pending" "o2 \<noteq> Pending"
      using sendChannels_settlesD[OF 1] sendGroups_settlesD[OF 2] by simp_all
    have m2: "clock c5 \<le> clock c6"
      using sendGroups_mono[of c5 env message "groupIds channelConfig"] 2 by simp
    have some: "handleOnline (Some d) env channelConfig stream c =
        (case sendChannels (Some d) env message (channelIds channelConfig) c4 of
           (Rejected e, c5) \<Rightarrow> (Rejected e, c5)
         | (Pending, c5) \<Rightarrow> (Pending, c5)
         | (Resolved, c5) \<Rightarrow>
             (case sendGroups (Some d) env message (groupIds channelConfig) c5 of
                (Rejected e, c6) \<Rightarrow> (Rejected e, c6)
              | (Pending, c6) \<Rightarrow> (Pending, c6)
              | (Resolved, c6) \<Rightarrow> awaitWrite (Some d) env c6))"
      unfolding message_def c4_def using False new by (simp add: handleOnline_def Let_def)
    note E1 = sendChannels_deadline[OF clk4, of env message "channelIds channelConfig",
        unfolded 1, simplified]
    show ?thesis
    proof (cases "clock c5 \<le> d")
      case late: False
      obtain c5' where p: "sendChannels (Some d) env message (channelIds channelConfig) c4
           = (Pending, c5')" and "clock c5' = d"
        using E1 late by (metis fst_conv snd_conv surj_pair not_le)
      moreover have "d < clock (snd (handleOnline None env channelConfig stream c))"
        unfolding none using late m2 settle by (simp split: outcome.splits)
      ultimately show ?thesis unfolding some by simp
    next
      case t1: True
      have s1: "sendChannels (Some d) env message (channelIds channelConfig) c4 = (o1, c5)"
        using E1 t1 by simp
      show ?thesis
      proof (cases o1)
        case Pending
        then show ?thesis using settle by simp
      next
        case (Rejected e)
        then show ?thesis unfolding some none s1 using t1 by simp
      next
        case Resolved
        note E2 = sendGroups_deadline[OF t1, of env message "groupIds channelConfig",
            unfolded 2, simplified]
        show ?thesis
        proof (cases "clock c6 \<le> d")
          case late: False
          obtain c6' where p: "sendGroups (Some d) env message (groupIds channelConfig) c5
               = (Pending, c6')" and "clock c6' = d"
            using E2 late by (metis fst_conv snd_conv surj_pair not_le)
          moreover have "d < clock (snd (handleOnline None env channelConfig stream c))"
            unfolding none using late settle Resolved by (simp split: outcome.splits)
          ultimately show ?thesis unfolding some s1 using Resolved by simp
        next
          case t2: True
          have s2: "sendGroups (Some d) env message (groupIds channelConfig) c5 = (o2, c6)"
            using E2 t2 by simp
          show ?thesis
            unfolding some none s1 using Resolved s2 settle t2
              awaitWrite_deadline[OF t2, of env]
            by (auto split: outcome.splits)
        qed
      qed
    qed
  qed
qed


lemma update_settles: "fst (update config env channelName channelConfig w) \<noteq> Pending"
proof -
  have h: "fst (handleOnline None env channelConfig stream c) \<noteq> Pending" for stream c
    by (auto simp: handleOnline_def Let_def
        dest: editLoop_settlesD sendChannels_settlesD sendGroups_settlesD
        split: prod.splits outcome.splits)
  show ?thesis
    using h unpinLoop_resolves
    apply (simp add: update_def updateUntil_def Let_def
        split: sum.splits status.splits option.splits prod.splits)
    by (metis fst_conv outcome.distinct(3))
qed

lemma update_mono: "clock w \<le> clock (snd (update config env channelName channelConfig w))"
proof -
  have u: "clock w \<le> clock (snd (unpinLoop None env es
              (enter (w\<lparr>clock := clock w + lookupMs env channelName\<rparr>) st)))" for es st
    using unpinLoop_mono[of "enter (w\<lparr>clock := clock w + lookupMs env channelName\<rparr>) st"
            env es] by simp
  have h: "clock w \<le> clock (snd (handleOnline None env channelConfig stream
              (enter (w\<lparr>clock := clock w + lookupMs env channelName\<rparr>) st)))" for stream st
    using handleOnline_mono[of "enter (w\<lparr>clock := clock w + lookupMs env channelName\<rparr>) st"
            env channelConfig stream] by simp
  show ?thesis
    apply (simp add: update_def updateUntil_def Let_def
        split: sum.splits status.splits option.splits prod.splits)
    using u h by (metis snd_conv)
qed

lemma updateUntil_deadline:
  assumes "clock w \<le> d"
  shows "(clock (snd (update config env channelName channelConfig w)) \<le> d \<longrightarrow>
      updateUntil (Some d) config env channelName channelConfig w =
        update config env channelName channelConfig w) \<and>
   (d < clock (snd (update config env channelName channelConfig w)) \<longrightarrow>
      fst (updateUntil (Some d) config env channelName channelConfig w) = Pending \<and>
      clock (snd (updateUntil (Some d) config env channelName channelConfig w)) = d)"
proof (cases "getBot config (bot_cfg channelConfig)")
  case (Inl e)
  then show ?thesis using assms by (simp add: update_def updateUntil_def)
next
  case (Inr b)
  define w1 where "w1 = w\<lparr>clock := clock w + lookupMs env channelName\<rparr>"
  have clk1: "clock w1 = clock w + lookupMs env channelName" by (simp add: w1_def)
  have none: "update config env channelName channelConfig w =
      (case getStatus env channelName of
         LookupThrows \<Rightarrow> (Rejected ApiError, w1)
       | EmptyResult \<Rightarrow> (Resolved, w1)
       | NotOnline \<Rightarrow>
           (case map_of (db w1) channelName of
              None \<Rightarrow> (Rejected TypeError, w1)
            | Some st \<Rightarrow>
                (case unpinLoop None env (Object_entries (groups st)) (enter w1 st) of
                   (out, c) \<Rightarrow> (out, leave channelName w1 c)))
       | Online stream \<Rightarrow>
           (case map_of (db w1) channelName of
              None \<Rightarrow> (Rejected TypeError, w1)
            | Some st \<Rightarrow>
                (case handleOnline None env channelConfig stream (enter w1 st) of
                   (out, c) \<Rightarrow> (out, leave channelName w1 c))))"
    unfolding w1_def using Inr by (simp add: update_def updateUntil_def Let_def)
  have late1: "clock w1 \<le> clock (snd (update config env channelName channelConfig w))"
  proof -
    have u: "clock w1 \<le> clock (snd (unpinLoop None env es (enter w1 st)))" for es st
      using unpinLoop_mono[of "enter w1 st" env es] by simp
    have h: "clock w1 \<le> clock (snd (handleOnline None env channelConfig stream (enter w1 st)))"
      for stream st
      using handleOnline_mono[of "enter w1 st" env channelConfig stream] by simp
    show ?thesis
      unfolding none
      apply (simp split: status.splits option.splits prod.splits)
      using u h by (metis snd_conv)
  qed
  show ?thesis
  proof (cases "clock w1 \<le> d")
    case False
    then have "updateUntil (Some d) config env channelName channelConfig w =
        (Pending, stopped (Some d) w)"
      using Inr clk1 by (simp add: updateUntil_def answered_def)
    then show ?thesis using False late1 by simp
  next
    case True
    have some: "updateUntil (Some d) config env channelName channelConfig w =
      (case getStatus env channelName of
         LookupThrows \<Rightarrow> (Rejected ApiError, w1)
       | EmptyResult \<Rightarrow> (Resolved, w1)
       | NotOnline \<Rightarrow>
           (case map_of (db w1) channelName of
              None \<Rightarrow> (Rejected TypeError, w1)
            | Some st \<Rightarrow>
                (case unpinLoop (Some d) env (Object_entries (groups st)) (enter w1 st) of
                   (out, c) \<Rightarrow> (out, leave channelName w1 c)))
       | Online stream \<Rightarrow>
           (case map_of (db w1) channelName of
              None \<Rightarrow> (Rejected TypeError, w1)
            | Some st \<Rightarrow>
                (case handleOnline (Some d) env channelConfig stream (enter w1 st) of
                   (out, c) \<Rightarrow> (out, leave channelName w1 c))))"
      unfolding w1_def using Inr True clk1
      by (simp add: updateUntil_def Let_def answered_def)
    have e: "clock (enter w1 st) \<le> d" for st using True by simp
    show ?thesis
    proof (cases "getStatus env channelName")
      case LookupThrows
      then show ?thesis unfolding some none using True by simp
    next
      case EmptyResult
      then show ?thesis unfolding some none using True by simp
    next
      case NotOnline
      show ?thesis
      proof (cases "map_of (db w1) channelName")
        case None
        then show ?thesis unfolding some none using True NotOnline by simp
      next
        case (Some st)
        show ?thesis
          unfolding some none
          using NotOnline Some unpinLoop_deadline[OF e[of st], of env "Object_entries (groups st)"]
          by (auto split: prod.splits)
      qed
    next
      case (Online stream)
      show ?thesis
      proof (cases "map_of (db w1) channelName")
        case None
        then show ?thesis unfolding some none using True Online by simp
      next
        case (Some st)
        show ?thesis
          unfolding some none
          using Online Some handleOnline_deadline[OF e[of st], of env channelConfig stream]
          by (auto split: prod.splits)
      qed
    qed
  qed
qed

lemma abandoned_append:
  "updateEach config env xs w = (Resolved, w1) \<Longrightarrow>
   abandoned config env (xs @ ys) w = abandoned config env ys w1"
proof (induction xs arbitrary: w)
  case Nil
  then show ?case by simp
next
  case (Cons x xs)
  obtain channel channelConfig where x: "x = (channel, channelConfig)" by fastforce
  obtain out w' where u: "updateUntil (Some (clock w + 15 * 1000)) config env channel
      channelConfig w = (out, w')" by fastforce
  show ?case
  proof (cases out)
    case Resolved
    then show ?thesis
      using Cons.prems Cons.IH[of w'] u x by (simp add: fulfillWithTimeLimit_def)
  next
    case (Rejected e)
    then show ?thesis using Cons.prems u x by (simp add: fulfillWithTimeLimit_def)
  next
    case Pending
    then show ?thesis using Cons.prems u x by (simp add: fulfillWithTimeLimit_def)
  qed
qed

subsection \<open>The time limit and the sweep\<close>

lemma fulfill_in_time:
  assumes "clock (snd (update config env channel channelConfig w)) \<le> clock w + timeLimit"
  shows "fulfillWithTimeLimit timeLimit w
           (\<lambda>deadline. updateUntil deadline config env channel channelConfig w) =
         update config env channel channelConfig w"
proof -
  have "clock w \<le> clock w + timeLimit" by simp
  from updateUntil_deadline[OF this, of config env channel channelConfig] assms
  have "updateUntil (Some (clock w + timeLimit)) config env channel channelConfig w =
      update config env channel channelConfig w" by simp
  then show ?thesis
    using update_settles[of config env channel channelConfig w]
    by (cases "update config env channel channelConfig w")
       (simp add: fulfillWithTimeLimit_def split: outcome.splits)
qed


lemma sweep_rejected:
  assumes cfg: "channels_cfg config = before @ (channel, channelConfig) # after"
    and pre: "updateEach config env before w = (Resolved, w1)"
    and fail: "fulfillWithTimeLimit (15 * 1000) w1
                 (\<lambda>deadline. updateUntil deadline config env channel channelConfig w1)
                 = (Rejected e, w2)"
  shows "updateAll config env w = (Rejected e, w2)"
    and "abandoned config env (channels_cfg config) w =
           (if fst (updateUntil (Some (clock w1 + 15 * 1000)) config env channel
                      channelConfig w1) = Pending
            then Some (channel, channelConfig, w1) else None)"
proof -
  have "updateEach config env (channels_cfg config) w = (Rejected e, w2)"
    unfolding cfg updateEach_append using pre fail by simp
  then show "updateAll config env w = (Rejected e, w2)"
    by (simp add: updateAll_def)
  show "abandoned config env (channels_cfg config) w =
           (if fst (updateUntil (Some (clock w1 + 15 * 1000)) config env channel
                      channelConfig w1) = Pending
            then Some (channel, channelConfig, w1) else None)"
    unfolding cfg abandoned_append[OF pre] using fail
    by (auto simp: fulfillWithTimeLimit_def split: prod.splits outcome.splits)
qed

section \<open>The claims\<close>

text \<open>
  C1, as the code has it. Let the channel be observed online with a title other than
  \<^verbatim>\<open>state.lastStreamTitle\<close> and a stream id other than \<^verbatim>\<open>state.lastStreamId\<close> (which
  is \<^verbatim>\<open>null\<close> before the first stream and keeps its value while the channel is
  offline), and let Telegram accept every send and pin. Then \<^verbatim>\<open>update\<close> resolves; its
  calls are one \<^verbatim>\<open>sendMessage\<close> for each configured channel id in the order of the
  configuration, then for each configured group id in order one \<^verbatim>\<open>sendMessage\<close>
  followed by the \<^verbatim>\<open>pinChatMessage\<close> of the message sent, then one write. In the state
  written, each configured channel and group has the message id that its send returned,
  and \<^verbatim>\<open>lastStreamId\<close> and \<^verbatim>\<open>lastStreamTitle\<close> are those observed.
\<close>

theorem new_stream_notifies_every_destination:
  assumes bot: "bot_cfg channelConfig \<in> set (bots config)"
    and on: "getStatus env channelName = Online stream"
    and st: "map_of (db w) channelName = Some st"
    and new_title: "lastStreamTitle st \<noteq> Some (title stream)"
    and new_id: "lastStreamId st \<noteq> Some (id_stream stream)"
    and sends: "\<forall>i \<in> set (channelIds channelConfig @ groupIds channelConfig).
                  sendMessage env i (formatMessage env stream) \<noteq> None"
    and pins: "\<forall>g \<in> set (groupIds channelConfig).
                  pinChatMessage env g (the (sendMessage env g (formatMessage env stream)))"
  shows "case update config env channelName channelConfig w of
           (out, w') \<Rightarrow>
             out = Resolved \<and>
             trace w' = trace w @
               map (\<lambda>i. SendMessage i (formatMessage env stream)) (channelIds channelConfig) @
               concat (map (\<lambda>g. [SendMessage g (formatMessage env stream),
                                  PinChatMessage g
                                    (the (sendMessage env g (formatMessage env stream)))])
                         (groupIds channelConfig)) @
               [Write] \<and>
             db w' = AList.update channelName (notified env channelConfig stream st) (db w) \<and>
             disk w' = db w' \<and>
             (\<forall>i \<in> set (channelIds channelConfig).
                map_of (channels (notified env channelConfig stream st)) i =
                  Some (sendMessage env i (formatMessage env stream))) \<and>
             (\<forall>g \<in> set (groupIds channelConfig).
                map_of (groups (notified env channelConfig stream st)) g =
                  Some (sendMessage env g (formatMessage env stream)))"
proof -
  define w0 where "w0 = w\<lparr>clock := clock w + lookupMs env channelName\<rparr>"
  define c0 where "c0 = enter w0 st"
  define message where "message = formatMessage env stream"
  define c4 where "c4 = c0\<lparr>state := (state c0)
               \<lparr>lastStreamTitle := Some (title stream),
                lastStreamId := Some (id_stream stream),
                channels :=
                  cleanup (channelIds channelConfig) (forIn_keys (groups (state c0)))
                    (cleanup (channelIds channelConfig) (forIn_keys (channels (state c0)))
                       (channels (state c0)))\<rparr>\<rparr>"
  define c5 where "c5 = snd (sendChannels None env message (channelIds channelConfig) c4)"
  define c6 where "c6 = snd (sendGroups None env message (groupIds channelConfig) c5)"
  have ok1: "\<forall>i \<in> set (channelIds channelConfig). sendMessage env i message \<noteq> None"
    and ok2: "\<forall>i \<in> set (groupIds channelConfig). sendMessage env i message \<noteq> None"
    and ok3: "\<forall>g \<in> set (groupIds channelConfig).
        pinChatMessage env g (the (sendMessage env g message))"
    using sends pins by (simp_all add: message_def)
  note s1 = sendChannels_ok[OF ok1, of c4, folded c5_def]
  note s2 = sendGroups_ok[OF ok2 ok3, of c5, folded c6_def]
  have r1: "sendChannels None env message (channelIds channelConfig) c4 = (Resolved, c5)"
    using s1 by (simp add: c5_def prod_eq_iff)
  have r2: "sendGroups None env message (groupIds channelConfig) c5 = (Resolved, c6)"
    using s2 by (simp add: c6_def prod_eq_iff)
  note f1 = sendChannels_frameD[OF r1]
  note f2 = sendGroups_frameD[OF r2]
  have h: "handleOnline None env channelConfig stream c0 = (Resolved, statusDb_write env c6)"
    using handleOnline_new[of c0 stream env channelConfig _ c5 _ c6] new_title new_id r1 r2
    by (simp add: c0_def c4_def message_def)
  have upd: "update config env channelName channelConfig w =
      (Resolved, leave channelName w0 (statusDb_write env c6))"
    unfolding update_online[OF bot on st] using h by (simp add: w0_def c0_def)
  have ch4: "channels (state c4) =
      filter (\<lambda>e. fst e \<in> set (channelIds channelConfig)) (channels st)"
    by (simp add: c4_def c0_def cleanup_own_keys cleanup_again)
  have state: "state c6 = notified env channelConfig stream st"
    using s1 s2 f1 f2 ch4
    by (intro ChannelState.equality)
       (simp_all add: notified_def recordSends_def message_def c4_def c0_def)
  have tr: "trace c6 = trace w @
      map (\<lambda>i. SendMessage i message) (channelIds channelConfig) @
      concat (map (\<lambda>g. [SendMessage g message,
                         PinChatMessage g (the (sendMessage env g message))])
                (groupIds channelConfig))"
    using s1 s2 by (simp add: c4_def c0_def w0_def)
  show ?thesis
    unfolding upd using state tr
    by (simp add: message_def map_of_recordSends notified_def w0_def)
qed

theorem new_stream_notifies_every_destination_witness:
  "fst (update foo_config (foo_env (Online again)) ''foo'' foo_entry (foo_world foo_live))
     = Resolved \<and>
   trace (snd (update foo_config (foo_env (Online again)) ''foo'' foo_entry
                 (foo_world foo_live))) =
     [SendMessage 100 (formatMessage (foo_env (Online again)) again),
      SendMessage 200 (formatMessage (foo_env (Online again)) again),
      PinChatMessage 200 201,
      Write] \<and>
   db (snd (update foo_config (foo_env (Online again)) ''foo'' foo_entry
              (foo_world foo_live))) =
     [(''foo'', \<lparr>lastStreamId = Some ''b'', lastStreamTitle = Some ''Again'',
                channels = [(100, Some 101)], groups = [(200, Some 201)]\<rparr>)]"
  using new_stream_notifies_every_destination [of foo_entry foo_config
      "foo_env (Online again)" "''foo''" again "foo_world foo_live" foo_live]
  by (simp add: foo_defs foo_live_def again_def notified_def recordSends_def
      split: prod.splits)

text \<open>
  C1 as the claim states it, for every stream id other than \<^verbatim>\<open>state.lastStreamId\<close>,
  fails when the title is \<^verbatim>\<open>state.lastStreamTitle\<close>: the stream \<open>b\<close> announced with
  the title of stream \<open>a\<close> returns at line 135 and sends nothing.
\<close>

theorem new_stream_with_old_title_sends_nothing:
  "lastStreamId foo_live = Some ''a'' \<and>
   id_stream hello_again = ''b'' \<and>
   update foo_config (foo_env (Online hello_again)) ''foo'' foo_entry (foo_world foo_live) =
     (Resolved, (foo_world foo_live)\<lparr>clock := 100\<rparr>) \<and>
   trace ((foo_world foo_live)\<lparr>clock := 100\<rparr>) = []"
  by (simp add: foo_defs foo_live_def hello_again_def run_defs)

text \<open>
  C2. Let the channel be observed online twice in a row with the same title, whatever
  the stream ids of the two observations and whatever the first call of \<^verbatim>\<open>update\<close> did
  (sent, edited, skipped, or threw on a Telegram failure). The second call resolves and
  leaves the world as the first call left it, but for the time spent on the lookup: no
  call to Telegram, no write, the database in memory and on disk unchanged.
\<close>

theorem duplicate_title_suppressed:
  assumes bot: "bot_cfg channelConfig \<in> set (bots config)"
    and st: "map_of (db w) channelName = Some st"
    and on1: "getStatus env1 channelName = Online stream"
    and on2: "getStatus env2 channelName = Online stream'"
    and same: "title stream' = title stream"
  shows "update config env2 channelName channelConfig
           (snd (update config env1 channelName channelConfig w)) =
         (Resolved,
          (snd (update config env1 channelName channelConfig w))
            \<lparr>clock := clock (snd (update config env1 channelName channelConfig w))
                        + lookupMs env2 channelName\<rparr>)"
proof -
  define w0 where "w0 = w\<lparr>clock := clock w + lookupMs env1 channelName\<rparr>"
  define c where "c = snd (handleOnline None env1 channelConfig stream (enter w0 st))"
  have w1: "snd (update config env1 channelName channelConfig w) = leave channelName w0 c"
    unfolding update_online[OF bot on1 st] by (simp add: w0_def c_def)
  have "map_of (db (leave channelName w0 c)) channelName = Some (state c)"
    by (simp add: AList.update_conv')
  moreover have "lastStreamTitle (state c) = Some (title stream')"
    unfolding c_def same by (rule handleOnline_title)
  ultimately show ?thesis
    unfolding w1 using update_duplicate[OF bot on2] by blast
qed

theorem duplicate_title_suppressed_witness:
  "fst (update foo_config (foo_env (Online hello)) ''foo'' foo_entry
          (snd (update foo_config (foo_env (Online hello)) ''foo'' foo_entry
                  (foo_world foo_idle)))) = Resolved \<and>
   trace (snd (update foo_config (foo_env (Online hello)) ''foo'' foo_entry
          (snd (update foo_config (foo_env (Online hello)) ''foo'' foo_entry
                  (foo_world foo_idle))))) =
     [SendMessage 100 (formatMessage (foo_env (Online hello)) hello),
      SendMessage 200 (formatMessage (foo_env (Online hello)) hello),
      PinChatMessage 200 201, Write]"
  using duplicate_title_suppressed [of foo_entry foo_config "foo_world foo_idle" "''foo''"
      foo_idle "foo_env (Online hello)" hello "foo_env (Online hello)" hello]
  by (simp add: foo_defs foo_idle_def hello_def run_defs)




text \<open>
  C4. When the channel is observed offline, \<^verbatim>\<open>update\<close> resolves; it calls
  \<^verbatim>\<open>unpinChatMessage\<close> once for every entry of \<^verbatim>\<open>state.groups\<close> with a recorded message
  id, in the order of \<^verbatim>\<open>Object.entries\<close>, and writes the database after each one; these
  entries and no others are set to \<^verbatim>\<open>null\<close>; the rest of the state (\<^verbatim>\<open>channels\<close>,
  \<^verbatim>\<open>lastStreamId\<close>, \<^verbatim>\<open>lastStreamTitle\<close>) and the other channels of the database are as
  before, and no message is sent, edited or pinned. This holds whether the unpin calls
  succeed or throw.
\<close>

theorem offline_unpins_and_clears:
  assumes bot: "bot_cfg channelConfig \<in> set (bots config)"
    and off: "getStatus env channelName = NotOnline"
    and st: "map_of (db w) channelName = Some st"
    and wf: "distinct (map fst (groups st))"
  shows "case update config env channelName channelConfig w of
           (out, w') \<Rightarrow>
             out = Resolved \<and>
             trace w' = trace w @
               concat (map (\<lambda>(groupId, m). [UnpinChatMessage groupId m, Write])
                         (recorded (Object_entries (groups st)))) \<and>
             db w' = AList.update channelName (st\<lparr>groups := unpinned (groups st)\<rparr>) (db w) \<and>
             disk w' = (if recorded (Object_entries (groups st)) = [] then disk w else db w')"
proof -
  define w1 where "w1 = w\<lparr>clock := clock w + lookupMs env channelName\<rparr>"
  define c where "c = snd (unpinLoop None env (Object_entries (groups st)) (enter w1 st))"
  have upd: "update config env channelName channelConfig w = (Resolved, leave channelName w1 c)"
    unfolding update_offline[OF bot off st] by (simp add: w1_def c_def)
  have sub: "\<forall>(g, v) \<in> set (Object_entries (groups st)).
      truthy v \<longrightarrow> g \<in> fst ` set (groups (state (enter w1 st)))"
    by (auto simp: set_Object_entries rev_image_eqI)
  have "map (\<lambda>(k, v). (k, if k \<in> fst ` set (recorded (Object_entries (groups st)))
                              then None else v)) (groups st) = unpinned (groups st)"
    unfolding unpinned_def using recorded_keys[OF wf] by (intro map_cong) auto
  then have state: "state c = st\<lparr>groups := unpinned (groups st)\<rparr>"
    using unpinLoop_state[of "enter w1 st" "Object_entries (groups st)" env] wf sub
    by (simp add: c_def)
  have tr: "trace c = trace w @
      concat (map (\<lambda>(groupId, m). [UnpinChatMessage groupId m, Write])
                (recorded (Object_entries (groups st))))"
    by (simp add: c_def unpinLoop_trace w1_def)
  have wr: "written c =
      (if recorded (Object_entries (groups st)) = [] then None else Some (state c))"
    by (simp add: c_def unpinLoop_written)
  show ?thesis
    unfolding upd using state tr wr by (simp add: w1_def)
qed


theorem offline_unpins_and_clears_witness:
  "fst (update foo_config (foo_env NotOnline) ''foo'' foo_entry (foo_world foo_live)) = Resolved \<and>
   trace (snd (update foo_config (foo_env NotOnline) ''foo'' foo_entry (foo_world foo_live)))
     = [UnpinChatMessage 200 8, Write] \<and>
   db (snd (update foo_config (foo_env NotOnline) ''foo'' foo_entry (foo_world foo_live)))
     = [(''foo'', foo_live\<lparr>groups := [(200, None)]\<rparr>)] \<and>
   disk (snd (update foo_config (foo_env NotOnline) ''foo'' foo_entry (foo_world foo_live)))
     = [(''foo'', foo_live\<lparr>groups := [(200, None)]\<rparr>)]"
  using offline_unpins_and_clears [of foo_entry foo_config "foo_env NotOnline" "''foo''"
      "foo_world foo_live" foo_live]
  by (simp add: foo_defs foo_live_def unpinned_def split: prod.splits)

text \<open>
  C5. On a new stream the entries of \<^verbatim>\<open>state.channels\<close> whose key is not a configured
  channel id are deleted, but no entry of \<^verbatim>\<open>state.groups\<close> is: the loop of lines 186
  to 191 tests the keys of \<^verbatim>\<open>state.groups\<close> against \<^verbatim>\<open>channelConfig.channelIds\<close> and
  deletes from \<^verbatim>\<open>state.channels\<close>. With the groups 300 and 200 recorded and only 200
  configured, the entry of 300 is still there after the new stream, while the channel
  150, not configured either, is gone.
\<close>

theorem stale_group_entry_survives_new_stream:
  "groupIds foo_entry = [200] \<and>
   map_of (groups foo_stale) 300 = Some (Some 6) \<and>
   update foo_config (foo_env (Online again)) ''foo'' foo_entry (foo_world foo_stale) =
     (Resolved,
      \<lparr>trace = [SendMessage 100 (formatMessage (foo_env (Online again)) again),
                SendMessage 200 (formatMessage (foo_env (Online again)) again),
                PinChatMessage 200 201,
                Write],
       console = [],
       clock = 300,
       db = [(''foo'', \<lparr>lastStreamId = Some ''b'', lastStreamTitle = Some ''Again'',
                        channels = [(100, Some 101)],
                        groups = [(300, Some 6), (200, Some 201)]\<rparr>)],
       disk = [(''foo'', \<lparr>lastStreamId = Some ''b'', lastStreamTitle = Some ''Again'',
                          channels = [(100, Some 101)],
                          groups = [(300, Some 6), (200, Some 201)]\<rparr>)]\<rparr>)"
  by (simp add: foo_defs foo_stale_def again_def run_defs AList.delete_eq)

text \<open>
  C6, as the code has it. In the online branch no call to Telegram is inside a
  \<^verbatim>\<open>try\<close>: a rejected send, edit or pin rejects \<^verbatim>\<open>update\<close> with that error on the
  spot. So the calls of the cycle stop at the first rejected one, the destinations after
  it are not processed, the write of line 220 is not reached and the file on disk is as
  before. What was assigned in memory before the rejection stays, whichever call is the
  rejected one:
  \<^item> on a title change the state in memory differs from the one before the cycle in
    \<^verbatim>\<open>lastStreamTitle\<close> only, whatever Telegram answers to the edits;
  \<^item> when the send to a channel \<open>i\<close> is rejected after the sends to the channels before it
    were accepted, the state in memory has the new title and stream id, the entries of
    the channels that are no longer configured removed, the new message ids of the
    channels before \<open>i\<close>, and the other entries of \<^verbatim>\<open>channels\<close> and all of \<^verbatim>\<open>groups\<close> as
    they were;
  \<^item> when the send to a group \<open>g\<close> is rejected after the sends to all channels and to the
    groups before \<open>g\<close> (with their pins) were accepted, the state in memory is the one a
    complete notification of the channels and of these groups alone leaves, with the
    entry of \<open>g\<close> as it was;
  \<^item> when the pin in a group \<open>g\<close> is rejected after its message was sent, the state in
    memory is the one a complete notification of the channels and of the groups up to
    \<open>g\<close> leaves: the entry of \<open>g\<close> has the id of the message that could not be pinned.
\<close>

theorem rejected_call_aborts_fan_out:
  assumes bot: "bot_cfg channelConfig \<in> set (bots config)"
    and on: "getStatus env channelName = Online stream"
    and st: "map_of (db w) channelName = Some st"
  shows "(\<exists>new. trace (snd (update config env channelName channelConfig w)) = trace w @ new \<and>
            aborted_at_first_rejection env
              (fst (update config env channelName channelConfig w)) new) \<and>
         (fst (update config env channelName channelConfig w) \<noteq> Resolved \<longrightarrow>
            disk (snd (update config env channelName channelConfig w)) = disk w) \<and>
         (lastStreamTitle st \<noteq> Some (title stream) \<and>
          lastStreamId st = Some (id_stream stream) \<longrightarrow>
            db (snd (update config env channelName channelConfig w)) =
              AList.update channelName (st\<lparr>lastStreamTitle := Some (title stream)\<rparr>) (db w)) \<and>
         (lastStreamTitle st \<noteq> Some (title stream) \<and>
          lastStreamId st \<noteq> Some (id_stream stream) \<and>
          channelIds channelConfig = sent @ i # unsent \<and>
          (\<forall>i' \<in> set sent. sendMessage env i' (formatMessage env stream) \<noteq> None) \<and>
          sendMessage env i (formatMessage env stream) = None \<longrightarrow>
            fst (update config env channelName channelConfig w) =
              Rejected (TelegramError (SendMessage i (formatMessage env stream))) \<and>
            trace (snd (update config env channelName channelConfig w)) = trace w @
              map (\<lambda>i'. SendMessage i' (formatMessage env stream)) sent @
              [SendMessage i (formatMessage env stream)] \<and>
            db (snd (update config env channelName channelConfig w)) =
              AList.update channelName
                (st\<lparr>lastStreamTitle := Some (title stream),
                    lastStreamId := Some (id_stream stream),
                    channels := recordSends env (formatMessage env stream) sent
                      (filter (\<lambda>e. fst e \<in> set (channelIds channelConfig)) (channels st))\<rparr>)
                (db w)) \<and>
         (lastStreamTitle st \<noteq> Some (title stream) \<and>
          lastStreamId st \<noteq> Some (id_stream stream) \<and>
          groupIds channelConfig = done @ g # rest \<and>
          (\<forall>i \<in> set (channelIds channelConfig @ done).
             sendMessage env i (formatMessage env stream) \<noteq> None) \<and>
          (\<forall>g' \<in> set done.
             pinChatMessage env g' (the (sendMessage env g' (formatMessage env stream)))) \<and>
          sendMessage env g (formatMessage env stream) = None \<longrightarrow>
            fst (update config env channelName channelConfig w) =
              Rejected (TelegramError (SendMessage g (formatMessage env stream))) \<and>
            trace (snd (update config env channelName channelConfig w)) = trace w @
              map (\<lambda>i. SendMessage i (formatMessage env stream)) (channelIds channelConfig) @
              concat (map (\<lambda>g'. [SendMessage g' (formatMessage env stream),
                                  PinChatMessage g'
                                    (the (sendMessage env g' (formatMessage env stream)))])
                        done) @
              [SendMessage g (formatMessage env stream)] \<and>
            db (snd (update config env channelName channelConfig w)) =
              AList.update channelName
                (notified env (channelConfig\<lparr>groupIds := done\<rparr>) stream st) (db w) \<and>
            (\<forall>i \<in> set (channelIds channelConfig).
               map_of (channels (notified env (channelConfig\<lparr>groupIds := done\<rparr>) stream st)) i =
                 Some (sendMessage env i (formatMessage env stream))) \<and>
            (\<forall>g' \<in> set done.
               map_of (groups (notified env (channelConfig\<lparr>groupIds := done\<rparr>) stream st)) g' =
                 Some (sendMessage env g' (formatMessage env stream))) \<and>
            (g \<notin> set done \<longrightarrow>
               map_of (groups (notified env (channelConfig\<lparr>groupIds := done\<rparr>) stream st)) g =
                 map_of (groups st) g)) \<and>
         (lastStreamTitle st \<noteq> Some (title stream) \<and>
          lastStreamId st \<noteq> Some (id_stream stream) \<and>
          groupIds channelConfig = done @ g # rest \<and>
          (\<forall>i \<in> set (channelIds channelConfig @ done).
             sendMessage env i (formatMessage env stream) \<noteq> None) \<and>
          (\<forall>g' \<in> set done.
             pinChatMessage env g' (the (sendMessage env g' (formatMessage env stream)))) \<and>
          sendMessage env g (formatMessage env stream) = Some m \<and>
          \<not> pinChatMessage env g m \<longrightarrow>
            fst (update config env channelName channelConfig w) =
              Rejected (TelegramError (PinChatMessage g m)) \<and>
            trace (snd (update config env channelName channelConfig w)) = trace w @
              map (\<lambda>i. SendMessage i (formatMessage env stream)) (channelIds channelConfig) @
              concat (map (\<lambda>g'. [SendMessage g' (formatMessage env stream),
                                  PinChatMessage g'
                                    (the (sendMessage env g' (formatMessage env stream)))])
                        done) @
              [SendMessage g (formatMessage env stream), PinChatMessage g m] \<and>
            db (snd (update config env channelName channelConfig w)) =
              AList.update channelName
                (notified env (channelConfig\<lparr>groupIds := done @ [g]\<rparr>) stream st) (db w) \<and>
            map_of (groups (notified env (channelConfig\<lparr>groupIds := done @ [g]\<rparr>) stream st)) g =
              Some (Some m))"
proof -
  have shape: "\<exists>new. trace (snd (update config env channelName channelConfig w)) = trace w @ new \<and>
            aborted_at_first_rejection env
              (fst (update config env channelName channelConfig w)) new"
    by (rule online_cycle_shape(1)[OF bot on st])
  have unwritten: "fst (update config env channelName channelConfig w) \<noteq> Resolved \<longrightarrow>
            disk (snd (update config env channelName channelConfig w)) = disk w"
    using online_cycle_shape(2)[OF bot on st] by blast
  have edit: "lastStreamTitle st \<noteq> Some (title stream) \<and>
          lastStreamId st = Some (id_stream stream) \<longrightarrow>
            db (snd (update config env channelName channelConfig w)) =
              AList.update channelName (st\<lparr>lastStreamTitle := Some (title stream)\<rparr>) (db w)"
    using title_change_calls(1)[OF bot on st] by blast
  have channel: "lastStreamTitle st \<noteq> Some (title stream) \<and>
          lastStreamId st \<noteq> Some (id_stream stream) \<and>
          channelIds channelConfig = sent @ i # unsent \<and>
          (\<forall>i' \<in> set sent. sendMessage env i' (formatMessage env stream) \<noteq> None) \<and>
          sendMessage env i (formatMessage env stream) = None \<longrightarrow>
            fst (update config env channelName channelConfig w) =
              Rejected (TelegramError (SendMessage i (formatMessage env stream))) \<and>
            trace (snd (update config env channelName channelConfig w)) = trace w @
              map (\<lambda>i'. SendMessage i' (formatMessage env stream)) sent @
              [SendMessage i (formatMessage env stream)] \<and>
            db (snd (update config env channelName channelConfig w)) =
              AList.update channelName
                (st\<lparr>lastStreamTitle := Some (title stream),
                    lastStreamId := Some (id_stream stream),
                    channels := recordSends env (formatMessage env stream) sent
                      (filter (\<lambda>e. fst e \<in> set (channelIds channelConfig)) (channels st))\<rparr>)
                (db w)"
    using channel_send_rejected[OF bot on st, of sent i unsent] by blast
  have group: "lastStreamTitle st \<noteq> Some (title stream) \<and>
          lastStreamId st \<noteq> Some (id_stream stream) \<and>
          groupIds channelConfig = done @ g # rest \<and>
          (\<forall>i \<in> set (channelIds channelConfig @ done).
             sendMessage env i (formatMessage env stream) \<noteq> None) \<and>
          (\<forall>g' \<in> set done.
             pinChatMessage env g' (the (sendMessage env g' (formatMessage env stream)))) \<and>
          sendMessage env g (formatMessage env stream) = None \<longrightarrow>
            fst (update config env channelName channelConfig w) =
              Rejected (TelegramError (SendMessage g (formatMessage env stream))) \<and>
            trace (snd (update config env channelName channelConfig w)) = trace w @
              map (\<lambda>i. SendMessage i (formatMessage env stream)) (channelIds channelConfig) @
              concat (map (\<lambda>g'. [SendMessage g' (formatMessage env stream),
                                  PinChatMessage g'
                                    (the (sendMessage env g' (formatMessage env stream)))])
                        done) @
              [SendMessage g (formatMessage env stream)] \<and>
            db (snd (update config env channelName channelConfig w)) =
              AList.update channelName
                (notified env (channelConfig\<lparr>groupIds := done\<rparr>) stream st) (db w) \<and>
            (\<forall>i \<in> set (channelIds channelConfig).
               map_of (channels (notified env (channelConfig\<lparr>groupIds := done\<rparr>) stream st)) i =
                 Some (sendMessage env i (formatMessage env stream))) \<and>
            (\<forall>g' \<in> set done.
               map_of (groups (notified env (channelConfig\<lparr>groupIds := done\<rparr>) stream st)) g' =
                 Some (sendMessage env g' (formatMessage env stream))) \<and>
            (g \<notin> set done \<longrightarrow>
               map_of (groups (notified env (channelConfig\<lparr>groupIds := done\<rparr>) stream st)) g =
                 map_of (groups st) g)"
  proof (intro impI, elim conjE, intro conjI impI)
    assume a: "lastStreamTitle st \<noteq> Some (title stream)"
      "lastStreamId st \<noteq> Some (id_stream stream)"
      "groupIds channelConfig = done @ g # rest"
      "\<forall>i \<in> set (channelIds channelConfig @ done).
         sendMessage env i (formatMessage env stream) \<noteq> None"
      "\<forall>g' \<in> set done.
         pinChatMessage env g' (the (sendMessage env g' (formatMessage env stream)))"
      "sendMessage env g (formatMessage env stream) = None"
    note r = group_send_rejected[OF bot on st a]
    show "fst (update config env channelName channelConfig w) =
        Rejected (TelegramError (SendMessage g (formatMessage env stream)))"
      by (rule r(1))
    show "trace (snd (update config env channelName channelConfig w)) = trace w @
        map (\<lambda>i. SendMessage i (formatMessage env stream)) (channelIds channelConfig) @
        concat (map (\<lambda>g'. [SendMessage g' (formatMessage env stream),
                            PinChatMessage g'
                              (the (sendMessage env g' (formatMessage env stream)))])
                  done) @
        [SendMessage g (formatMessage env stream)]"
      by (rule r(2))
    show "db (snd (update config env channelName channelConfig w)) =
        AList.update channelName
          (notified env (channelConfig\<lparr>groupIds := done\<rparr>) stream st) (db w)"
      by (rule r(3))
    show "\<forall>i \<in> set (channelIds channelConfig).
        map_of (channels (notified env (channelConfig\<lparr>groupIds := done\<rparr>) stream st)) i =
          Some (sendMessage env i (formatMessage env stream))"
      by (simp add: notified_def map_of_recordSends)
    show "\<forall>g' \<in> set done.
        map_of (groups (notified env (channelConfig\<lparr>groupIds := done\<rparr>) stream st)) g' =
          Some (sendMessage env g' (formatMessage env stream))"
      by (simp add: notified_def map_of_recordSends)
    assume "g \<notin> set done"
    then show "map_of (groups (notified env (channelConfig\<lparr>groupIds := done\<rparr>) stream st)) g =
        map_of (groups st) g"
      by (simp add: notified_def map_of_recordSends)
  qed
  have pin: "lastStreamTitle st \<noteq> Some (title stream) \<and>
          lastStreamId st \<noteq> Some (id_stream stream) \<and>
          groupIds channelConfig = done @ g # rest \<and>
          (\<forall>i \<in> set (channelIds channelConfig @ done).
             sendMessage env i (formatMessage env stream) \<noteq> None) \<and>
          (\<forall>g' \<in> set done.
             pinChatMessage env g' (the (sendMessage env g' (formatMessage env stream)))) \<and>
          sendMessage env g (formatMessage env stream) = Some m \<and>
          \<not> pinChatMessage env g m \<longrightarrow>
            fst (update config env channelName channelConfig w) =
              Rejected (TelegramError (PinChatMessage g m)) \<and>
            trace (snd (update config env channelName channelConfig w)) = trace w @
              map (\<lambda>i. SendMessage i (formatMessage env stream)) (channelIds channelConfig) @
              concat (map (\<lambda>g'. [SendMessage g' (formatMessage env stream),
                                  PinChatMessage g'
                                    (the (sendMessage env g' (formatMessage env stream)))])
                        done) @
              [SendMessage g (formatMessage env stream), PinChatMessage g m] \<and>
            db (snd (update config env channelName channelConfig w)) =
              AList.update channelName
                (notified env (channelConfig\<lparr>groupIds := done @ [g]\<rparr>) stream st) (db w) \<and>
            map_of (groups (notified env (channelConfig\<lparr>groupIds := done @ [g]\<rparr>) stream st)) g =
              Some (Some m)"
  proof (intro impI, elim conjE, intro conjI)
    assume a: "lastStreamTitle st \<noteq> Some (title stream)"
      "lastStreamId st \<noteq> Some (id_stream stream)"
      "groupIds channelConfig = done @ g # rest"
      "\<forall>i \<in> set (channelIds channelConfig @ done).
         sendMessage env i (formatMessage env stream) \<noteq> None"
      "\<forall>g' \<in> set done.
         pinChatMessage env g' (the (sendMessage env g' (formatMessage env stream)))"
      "sendMessage env g (formatMessage env stream) = Some m"
      "\<not> pinChatMessage env g m"
    note r = pin_rejected[OF bot on st a]
    show "fst (update config env channelName channelConfig w) =
        Rejected (TelegramError (PinChatMessage g m))"
      by (rule r(1))
    show "trace (snd (update config env channelName channelConfig w)) = trace w @
        map (\<lambda>i. SendMessage i (formatMessage env stream)) (channelIds channelConfig) @
        concat (map (\<lambda>g'. [SendMessage g' (formatMessage env stream),
                            PinChatMessage g'
                              (the (sendMessage env g' (formatMessage env stream)))])
                  done) @
        [SendMessage g (formatMessage env stream), PinChatMessage g m]"
      by (rule r(2))
    show "db (snd (update config env channelName channelConfig w)) =
        AList.update channelName
          (notified env (channelConfig\<lparr>groupIds := done @ [g]\<rparr>) stream st) (db w)"
      by (rule r(3))
    show "map_of (groups (notified env (channelConfig\<lparr>groupIds := done @ [g]\<rparr>) stream st)) g =
        Some (Some m)"
      using a(6) by (simp add: notified_def map_of_recordSends)
  qed
  show ?thesis
    by (intro conjI) (fact shape, fact unwritten, fact edit, fact channel, fact group, fact pin)
qed

theorem rejected_call_aborts_fan_out_witness:
  "db (snd (update foo_config (mute_env (Online hello_world)) ''foo'' foo_entry
              (foo_world foo_live))) =
     [(''foo'', foo_live\<lparr>lastStreamTitle := Some ''Hello World''\<rparr>)] \<and>
   fst (update twin_config (shut_env (Online again)) ''foo'' twin_entry (foo_world foo_live)) =
     Rejected (TelegramError (SendMessage 150 (formatMessage (shut_env (Online again)) again))) \<and>
   trace (snd (update twin_config (shut_env (Online again)) ''foo'' twin_entry
                 (foo_world foo_live))) =
     [SendMessage 100 (formatMessage (shut_env (Online again)) again),
      SendMessage 150 (formatMessage (shut_env (Online again)) again)] \<and>
   db (snd (update twin_config (shut_env (Online again)) ''foo'' twin_entry
              (foo_world foo_live))) =
     [(''foo'', \<lparr>lastStreamId = Some ''b'', lastStreamTitle = Some ''Again'',
                channels = [(100, Some 101)], groups = [(200, Some 8)]\<rparr>)] \<and>
   disk (snd (update twin_config (shut_env (Online again)) ''foo'' twin_entry
              (foo_world foo_live))) =
     [(''foo'', foo_live)] \<and>
   fst (update trio_config (deaf_env (Online again)) ''foo'' trio_entry (foo_world foo_live)) =
     Rejected (TelegramError (SendMessage 300 (formatMessage (deaf_env (Online again)) again))) \<and>
   trace (snd (update trio_config (deaf_env (Online again)) ''foo'' trio_entry
                 (foo_world foo_live))) =
     [SendMessage 100 (formatMessage (deaf_env (Online again)) again),
      SendMessage 200 (formatMessage (deaf_env (Online again)) again),
      PinChatMessage 200 201,
      SendMessage 300 (formatMessage (deaf_env (Online again)) again)] \<and>
   db (snd (update trio_config (deaf_env (Online again)) ''foo'' trio_entry
              (foo_world foo_live))) =
     [(''foo'', \<lparr>lastStreamId = Some ''b'', lastStreamTitle = Some ''Again'',
                channels = [(100, Some 101)], groups = [(200, Some 201)]\<rparr>)] \<and>
   disk (snd (update trio_config (deaf_env (Online again)) ''foo'' trio_entry
              (foo_world foo_live))) =
     [(''foo'', foo_live)] \<and>
   fst (update foo_config (loose_env (Online again)) ''foo'' foo_entry (foo_world foo_live)) =
     Rejected (TelegramError (PinChatMessage 200 201)) \<and>
   trace (snd (update foo_config (loose_env (Online again)) ''foo'' foo_entry
                 (foo_world foo_live))) =
     [SendMessage 100 (formatMessage (loose_env (Online again)) again),
      SendMessage 200 (formatMessage (loose_env (Online again)) again),
      PinChatMessage 200 201] \<and>
   db (snd (update foo_config (loose_env (Online again)) ''foo'' foo_entry
              (foo_world foo_live))) =
     [(''foo'', \<lparr>lastStreamId = Some ''b'', lastStreamTitle = Some ''Again'',
                channels = [(100, Some 101)], groups = [(200, Some 201)]\<rparr>)] \<and>
   disk (snd (update foo_config (loose_env (Online again)) ''foo'' foo_entry
              (foo_world foo_live))) =
     [(''foo'', foo_live)]"
  using
    rejected_call_aborts_fan_out [of foo_entry foo_config "mute_env (Online hello_world)"
      "''foo''" hello_world "foo_world foo_live" foo_live "[]" 100 "[]" "[]" 200 "[]" 0]
    rejected_call_aborts_fan_out [of twin_entry twin_config "shut_env (Online again)"
      "''foo''" again "foo_world foo_live" foo_live "[100]" 150 "[]" "[]" 200 "[]" 0]
    rejected_call_aborts_fan_out [of trio_entry trio_config "deaf_env (Online again)"
      "''foo''" again "foo_world foo_live" foo_live "[]" 100 "[]" "[200]" 300 "[400]" 0]
    rejected_call_aborts_fan_out [of foo_entry foo_config "loose_env (Online again)"
      "''foo''" again "foo_world foo_live" foo_live "[]" 100 "[]" "[]" 200 "[]" 201]
  by (simp add: foo_defs foo_live_def again_def hello_world_def trio_entry_def trio_config_def
      twin_entry_def twin_config_def deaf_env_def mute_env_def shut_env_def loose_env_def
      notified_def recordSends_def)

text \<open>
  C6 as the claim states it fails: with the groups 200, 300 and 400 configured and the
  send to 300 rejected, nothing is sent to 400.
\<close>

theorem failed_group_send_skips_remaining_groups:
  "groupIds trio_entry = [200, 300, 400] \<and>
   update trio_config (deaf_env (Online hello)) ''foo'' trio_entry (foo_world foo_idle) =
     (Rejected (TelegramError (SendMessage 300 (formatMessage (deaf_env (Online hello)) hello))),
      \<lparr>trace = [SendMessage 100 (formatMessage (deaf_env (Online hello)) hello),
                SendMessage 200 (formatMessage (deaf_env (Online hello)) hello),
                PinChatMessage 200 201,
                SendMessage 300 (formatMessage (deaf_env (Online hello)) hello)],
       console = [],
       clock = 300,
       db = [(''foo'', \<lparr>lastStreamId = Some ''a'', lastStreamTitle = Some ''Hello'',
                        channels = [(100, Some 101)], groups = [(200, Some 201)]\<rparr>)],
       disk = [(''foo'', foo_idle)]\<rparr>)"
  by (simp add: foo_defs foo_idle_def hello_def trio_entry_def trio_config_def deaf_env_def
      run_defs)

text \<open>
  C7, as the code has it. No branch of \<^verbatim>\<open>update\<close> assigns \<^verbatim>\<open>null\<close> to
  \<^verbatim>\<open>state.lastStreamId\<close>. After a cycle, whatever its outcome, \<^verbatim>\<open>lastStreamId\<close> is as
  before when the channel was observed offline, when no user was found and when the lookup
  threw; when the channel was observed online it is as before if the title is
  \<^verbatim>\<open>lastStreamTitle\<close>, and the observed stream id otherwise.
\<close>

theorem lastStreamId_never_cleared:
  assumes bot: "bot_cfg channelConfig \<in> set (bots config)"
    and st: "map_of (db w) channelName = Some st"
  shows "map_option lastStreamId
           (map_of (db (snd (update config env channelName channelConfig w))) channelName) =
         Some (case getStatus env channelName of
                 Online stream \<Rightarrow>
                   if lastStreamTitle st = Some (title stream) then lastStreamId st
                   else Some (id_stream stream)
               | _ \<Rightarrow> lastStreamId st)"
proof (cases "getStatus env channelName")
  case LookupThrows
  then show ?thesis using bot st by (simp add: update_def updateUntil_def getBot_def Let_def)
next
  case EmptyResult
  then show ?thesis using bot st by (simp add: update_def updateUntil_def getBot_def Let_def)
next
  case NotOnline
  show ?thesis
    unfolding update_offline[OF bot NotOnline st]
    using NotOnline by (simp add: AList.update_conv' unpinLoop_lastStreamId)
next
  case (Online stream)
  show ?thesis
    unfolding update_online[OF bot Online st]
    using Online by (simp add: AList.update_conv' handleOnline_lastStreamId)
qed

theorem lastStreamId_never_cleared_witness:
  "map_option lastStreamId
     (map_of (db (snd (update foo_config (foo_env (Online hello)) ''foo'' foo_entry
                         (foo_world foo_idle)))) ''foo'') = Some (Some ''a'')"
  using lastStreamId_never_cleared [of foo_entry foo_config "foo_world foo_idle" "''foo''"
      foo_idle "foo_env (Online hello)"]
  by (simp add: foo_defs foo_idle_def hello_def)

text \<open>
  C7 as the claim states it fails: from the empty state, a cycle that announces the
  stream \<open>a\<close> followed by a cycle that observes the channel offline, both resolved, leave
  \<^verbatim>\<open>lastStreamId\<close> at \<open>a\<close>, not at \<^verbatim>\<open>null\<close>.
\<close>

theorem lastStreamId_kept_when_offline:
  "fst (update foo_config (foo_env (Online hello)) ''foo'' foo_entry (foo_world foo_idle))
     = Resolved \<and>
   fst (update foo_config (foo_env NotOnline) ''foo'' foo_entry
          (snd (update foo_config (foo_env (Online hello)) ''foo'' foo_entry
                  (foo_world foo_idle))))
     = Resolved \<and>
   map_option lastStreamId
     (map_of (db (snd (update foo_config (foo_env NotOnline) ''foo'' foo_entry
                         (snd (update foo_config (foo_env (Online hello)) ''foo'' foo_entry
                                 (foo_world foo_idle))))))
        ''foo'')
     = Some (Some ''a'')"
  by (simp add: foo_defs foo_idle_def hello_def run_defs)



text \<open>
  C9, as the code has it. \<^verbatim>\<open>updateAll\<close> has no \<^verbatim>\<open>try\<close>: when the cycle of one channel
  is rejected, by the time limit or by an error thrown in \<^verbatim>\<open>update\<close>, \<^verbatim>\<open>updateAll\<close> is
  rejected with that error in the world of that moment; the channels after it in the
  configuration are not processed and the cleanup of the database is skipped. The error is
  caught by the top-level loop, which prints it and sleeps until the next sweep. After a
  thrown error nothing else happens during the sleep; after a timeout the world at the
  end of the sleep is the one the update left running has come to, the line of the error
  on the console at its place.
\<close>

theorem entity_failure_ends_the_sweep:
  assumes cfg: "channels_cfg config = before @ (channel, channelConfig) # after"
    and pre: "updateEach config env before w = (Resolved, w1)"
    and fail: "fulfillWithTimeLimit (15 * 1000) w1
                 (\<lambda>deadline. updateUntil deadline config env channel channelConfig w1)
                 = (Rejected e, w2)"
  shows "updateAll config env w = (Rejected e, w2) \<and>
         loopBody config env w =
           (if fst (updateUntil (Some (clock w1 + 15 * 1000)) config env channel
                      channelConfig w1) = Pending
            then (snd (updateUntil (Some (clock w2 + sleepMs)) config env channel
                         channelConfig w1))
                   \<lparr>console := console w2 @ [ConsoleThrown e] @
                      drop (length (console w2))
                        (console (snd (updateUntil (Some (clock w2 + sleepMs)) config env
                                         channel channelConfig w1))),
                    clock := clock w2 + sleepMs\<rparr>
            else (console_log (ConsoleThrown e) w2)\<lparr>clock := clock w2 + sleepMs\<rparr>)"
  using sweep_rejected[OF cfg pre fail]
  by (simp add: loopBody_def split: prod.splits)

theorem entity_failure_ends_the_sweep_witness:
  "updateAll duo_config (slow_env (Online hello)) duo_world =
     (Rejected TaskTimeout,
      \<lparr>trace = [SendMessage 100 (formatMessage (slow_env (Online hello)) hello)],
       console = [],
       clock = 15000,
       db = [(''foo'', \<lparr>lastStreamId = Some ''a'', lastStreamTitle = Some ''Hello'',
                        channels = [], groups = []\<rparr>),
             (''bar'', foo_idle)],
       disk = [(''foo'', foo_idle), (''bar'', foo_idle)]\<rparr>) \<and>
   loopBody duo_config (slow_env (Online hello)) duo_world =
      \<lparr>trace = [SendMessage 100 (formatMessage (slow_env (Online hello)) hello),
                SendMessage 200 (formatMessage (slow_env (Online hello)) hello),
                PinChatMessage 200 201,
                Write],
       console = [ConsoleThrown TaskTimeout],
       clock = 315000,
       db = [(''foo'', \<lparr>lastStreamId = Some ''a'', lastStreamTitle = Some ''Hello'',
                        channels = [(100, Some 101)], groups = [(200, Some 201)]\<rparr>),
             (''bar'', foo_idle)],
       disk = [(''foo'', \<lparr>lastStreamId = Some ''a'', lastStreamTitle = Some ''Hello'',
                          channels = [(100, Some 101)], groups = [(200, Some 201)]\<rparr>),
               (''bar'', foo_idle)]\<rparr>"
  using entity_failure_ends_the_sweep [of duo_config "[]" "''foo''" foo_entry
      "[(''bar'', foo_entry)]" "slow_env (Online hello)" duo_world duo_world TaskTimeout
      "\<lparr>trace = [SendMessage 100 (formatMessage (slow_env (Online hello)) hello)],
        console = [],
        clock = 15000,
        db = [(''foo'', \<lparr>lastStreamId = Some ''a'', lastStreamTitle = Some ''Hello'',
                         channels = [], groups = []\<rparr>),
              (''bar'', foo_idle)],
        disk = [(''foo'', foo_idle), (''bar'', foo_idle)]\<rparr>"]
  by (simp add: foo_defs foo_idle_def hello_def duo_config_def duo_world_def slow_env_def
      run_defs fulfillWithTimeLimit_def sleepMs_def)

text \<open>
  C9 as the claim states it fails: the stream lookup for \<^verbatim>\<open>foo\<close> throws, and the sweep
  ends there with nothing done for \<^verbatim>\<open>bar\<close>, whose cycle would have announced a new
  stream.
\<close>

theorem failed_lookup_skips_next_entity:
  "updateAll duo_config duo_env duo_world = (Rejected ApiError, duo_world\<lparr>clock := 100\<rparr>) \<and>
   map fst (channels_cfg duo_config) = [''foo'', ''bar''] \<and>
   getStatus duo_env ''bar'' = Online hello \<and>
   update duo_config duo_env ''bar'' foo_entry (duo_world\<lparr>clock := 100\<rparr>) =
     (Resolved,
      \<lparr>trace = [SendMessage 100 (formatMessage duo_env hello),
                SendMessage 200 (formatMessage duo_env hello),
                PinChatMessage 200 201,
                Write],
       console = [],
       clock = 400,
       db = [(''foo'', foo_idle),
             (''bar'', \<lparr>lastStreamId = Some ''a'', lastStreamTitle = Some ''Hello'',
                        channels = [(100, Some 101)], groups = [(200, Some 201)]\<rparr>)],
       disk = [(''foo'', foo_idle),
               (''bar'', \<lparr>lastStreamId = Some ''a'', lastStreamTitle = Some ''Hello'',
                          channels = [(100, Some 101)], groups = [(200, Some 201)]\<rparr>)]\<rparr>)"
  by (simp add: foo_defs foo_idle_def hello_def duo_config_def duo_world_def duo_env_def
      run_defs updateAll_def fulfillWithTimeLimit_def)

text \<open>
  C10. The top-level loop sleeps \<^verbatim>\<open>30 * 10000\<close> milliseconds after each sweep: 300
  seconds, not 30.
\<close>

theorem sleep_is_300_seconds:
  "clock (loopBody config env w) = clock (snd (updateAll config env w)) + 300 * 1000 \<and>
   sleepMs = 300 * 1000"
  by (simp add: loopBody_def sleepMs_def console_log_def
      split: prod.splits outcome.splits option.splits)

end
